theory Spec2Isabelle
  imports Main "HOL-Library.Sublist" "HOL-Library.Multiset"
begin

section \<open>Strings as the source uses them\<close>

text \<open>
  Python strings are modelled as \<open>string\<close>, lists of 8-bit characters, read as the code
  points 0 to 255.  On these, \<open>str.lower\<close> maps the 26 capital letters \<open>A\<close> to \<open>Z\<close> and the
  30 capital letters of Latin-1, the code points \<open>0xC0\<close> to \<open>0xDE\<close> without the multiplication
  sign \<open>0xD7\<close>, to the code point 32 places further; every other character is kept.
\<close>

definition lower_char :: "char \<Rightarrow> char" where
  "lower_char c =
     (case map_of (zip ''ABCDEFGHIJKLMNOPQRSTUVWXYZ'' ''abcdefghijklmnopqrstuvwxyz'') c of
        Some d \<Rightarrow> d
      | None \<Rightarrow>
          (case map_of
                  (zip [CHR 0xC0, CHR 0xC1, CHR 0xC2, CHR 0xC3, CHR 0xC4, CHR 0xC5, CHR 0xC6,
                        CHR 0xC7, CHR 0xC8, CHR 0xC9, CHR 0xCA, CHR 0xCB, CHR 0xCC, CHR 0xCD,
                        CHR 0xCE, CHR 0xCF, CHR 0xD0, CHR 0xD1, CHR 0xD2, CHR 0xD3, CHR 0xD4,
                        CHR 0xD5, CHR 0xD6, CHR 0xD8, CHR 0xD9, CHR 0xDA, CHR 0xDB, CHR 0xDC,
                        CHR 0xDD, CHR 0xDE]
                       [CHR 0xE0, CHR 0xE1, CHR 0xE2, CHR 0xE3, CHR 0xE4, CHR 0xE5, CHR 0xE6,
                        CHR 0xE7, CHR 0xE8, CHR 0xE9, CHR 0xEA, CHR 0xEB, CHR 0xEC, CHR 0xED,
                        CHR 0xEE, CHR 0xEF, CHR 0xF0, CHR 0xF1, CHR 0xF2, CHR 0xF3, CHR 0xF4,
                        CHR 0xF5, CHR 0xF6, CHR 0xF8, CHR 0xF9, CHR 0xFA, CHR 0xFB, CHR 0xFC,
                        CHR 0xFD, CHR 0xFE]) c of
             Some d \<Rightarrow> d
           | None \<Rightarrow> c))"

definition lower :: "string \<Rightarrow> string" where
  "lower s = map lower_char s"

text \<open>\<open>s.startswith(p)\<close> and \<open>s.endswith(x)\<close>; \<open>endswith\<close> with a tuple asks for any member.\<close>

definition startswith :: "string \<Rightarrow> string \<Rightarrow> bool" where
  "startswith s p = prefix p s"

definition endswith :: "string \<Rightarrow> string \<Rightarrow> bool" where
  "endswith s x = suffix x s"

definition endswith_any :: "string \<Rightarrow> string list \<Rightarrow> bool" where
  "endswith_any s xs = list_ex (endswith s) xs"

text \<open>\<open>s.strip('/')\<close>: the slashes at both ends are removed.\<close>

definition strip_slash :: "string \<Rightarrow> string" where
  "strip_slash s =
     rev (dropWhile (\<lambda>c. c = CHR ''/'') (rev (dropWhile (\<lambda>c. c = CHR ''/'') s)))"

text \<open>\<open>s.split(c)\<close> for a one-character separator; the result is never empty.\<close>

fun split_on :: "char \<Rightarrow> string \<Rightarrow> string list" where
  "split_on c [] = [[]]"
| "split_on c (x # xs) =
     (if x = c then [] # split_on c xs
      else (case split_on c xs of
              [] \<Rightarrow> [[x]]
            | w # ws \<Rightarrow> (x # w) # ws))"

section \<open>Configuration constants\<close>

definition PAK_EXTENSIONS :: "string list" where
  "PAK_EXTENSIONS = [''.pak'', ''.ucas'', ''.utoc'']"

definition IGNORE_ITEMS :: "string list" where
  "IGNORE_ITEMS = [''.ds_store'', ''__macosx'', ''.git'', ''.gitignore'', ''thumbs.db'']"

definition RELEVANT_EXTENSIONS :: "string list" where
  \<comment> \<open>the tuple \<open>('.esp',) + PAK_EXTENSIONS\<close> of \<open>_detect_single_folder_prefix\<close>\<close>
  "RELEVANT_EXTENSIONS = ''.esp'' # PAK_EXTENSIONS"

section \<open>Layout normalizer: \<open>_detect_single_folder_prefix\<close>\<close>

text \<open>
  An archive member is the pair (path, is-directory) that \<open>_get_archive_member_list\<close>
  produces.  The Python set \<open>top_level_dirs\<close> is a duplicate-free list; its order is
  arbitrary in Python and is read only when it has exactly one element.
\<close>

type_synonym member = "string \<times> bool"

definition path_parts_of :: "string \<Rightarrow> string list" where
  "path_parts_of path_str = split_on CHR ''/'' (strip_slash path_str)"

definition scan_member :: "string list \<times> bool \<Rightarrow> member \<Rightarrow> string list \<times> bool" where
  "scan_member st m =
     (case (st, m) of ((top_level_dirs, has_relevant_files_at_root), (path_str, is_dir)) \<Rightarrow>
        (let path_parts = path_parts_of path_str in
         if path_parts = [] \<or> lower (hd path_parts) \<in> set IGNORE_ITEMS
         then (top_level_dirs, has_relevant_files_at_root)
         else if length path_parts = 1 then
           (if is_dir then (List.insert (hd path_parts) top_level_dirs, has_relevant_files_at_root)
            else if endswith_any (lower (hd path_parts)) RELEVANT_EXTENSIONS
            then (top_level_dirs, True)
            else (top_level_dirs, has_relevant_files_at_root))
         else if length path_parts > 1
         then (List.insert (hd path_parts) top_level_dirs, has_relevant_files_at_root)
         else (top_level_dirs, has_relevant_files_at_root)))"

definition counted_for_all_inside :: "member \<Rightarrow> bool" where
  \<comment> \<open>the filter of the \<open>all(...)\<close> generator: a non-empty stripped path whose first segment
      is not ignorable\<close>
  "counted_for_all_inside m =
     (strip_slash (fst m) \<noteq> [] \<and> lower (hd (path_parts_of (fst m))) \<notin> set IGNORE_ITEMS)"

definition detect_single_folder_prefix :: "member list \<Rightarrow> string option" where
  "detect_single_folder_prefix member_list =
     (case foldl scan_member ([], False) member_list of
        (top_level_dirs, has_relevant_files_at_root) \<Rightarrow>
          (let valid_top_dirs = filter (\<lambda>d. lower d \<notin> set IGNORE_ITEMS) top_level_dirs in
           if length valid_top_dirs = 1 \<and> \<not> has_relevant_files_at_root then
             (let single_folder_name = hd valid_top_dirs;
                  all_inside = list_all (\<lambda>m. hd (path_parts_of (fst m)) = single_folder_name)
                                 (filter counted_for_all_inside member_list)
              in if all_inside then Some (single_folder_name @ ''/'') else None)
           else None))"

text \<open>The vocabulary of the claims about prefix detection, in terms of the source's tests.\<close>

definition first_segment :: "string \<Rightarrow> string" where
  "first_segment path_str = hd (path_parts_of path_str)"

definition ignorable :: "member \<Rightarrow> bool" where
  "ignorable m = (lower (first_segment (fst m)) \<in> set IGNORE_ITEMS)"

definition depth :: "member \<Rightarrow> nat" where
  "depth m = length (path_parts_of (fst m))"

definition relevant_root_file :: "member \<Rightarrow> bool" where
  "relevant_root_file m =
     (depth m = 1 \<and> \<not> snd m \<and> endswith_any (lower (first_segment (fst m))) RELEVANT_EXTENSIONS)"

definition names_folder :: "member \<Rightarrow> bool" where
  \<comment> \<open>the member shows its first segment to be a folder: a directory entry at depth 1,
      or any entry below depth 1\<close>
  "names_folder m = (\<not> ignorable m \<and> (snd m \<or> depth m > 1))"

definition all_first_segments_are :: "string \<Rightarrow> member list \<Rightarrow> bool" where
  "all_first_segments_are s ms = list_all (\<lambda>m. ignorable m \<or> first_segment (fst m) = s) ms"

section \<open>Paths as \<open>pathlib\<close> reads them\<close>

text \<open>
  \<open>Path(s)\<close> is modelled with the POSIX flavour of \<open>pathlib\<close>: a path is its root
  (empty, one slash or two slashes) and the list of its components, empty components
  and \<open>.\<close> dropped.  Archive member names have had their backslashes replaced by slashes
  before they reach these functions.  \<open>suffix\<close> and \<open>stem\<close> follow the \<open>rfind\<close> rule of
  \<open>pathlib\<close>: the suffix starts at the last dot of the name, unless that dot is the first
  or the last character.
\<close>

type_synonym pure_path = "string \<times> string list"

definition splitroot :: "string \<Rightarrow> string \<times> string" where
  "splitroot p =
     (if take 1 p \<noteq> ''/'' then ([], p)
      else if take 1 (drop 1 p) \<noteq> ''/'' \<or> take 1 (drop 2 p) = ''/'' then (''/'', drop 1 p)
      else (''//'', drop 2 p))"

definition Path :: "string \<Rightarrow> pure_path" where
  "Path p =
     (case splitroot p of (root, rel) \<Rightarrow>
        (root, filter (\<lambda>x. x \<noteq> [] \<and> x \<noteq> ''.'') (split_on CHR ''/'' rel)))"

fun join_slash :: "string list \<Rightarrow> string" where
  "join_slash [] = []"
| "join_slash [x] = x"
| "join_slash (x # y # ys) = x @ ''/'' @ join_slash (y # ys)"

definition str_of_path :: "pure_path \<Rightarrow> string" where
  \<comment> \<open>\<open>str(p)\<close> and \<open>p.as_posix()\<close>\<close>
  "str_of_path P =
     (case P of (root, tail) \<Rightarrow>
        (let s = root @ join_slash tail in if s = [] then ''.'' else s))"

definition path_name :: "pure_path \<Rightarrow> string" where
  "path_name P = (case P of (root, tail) \<Rightarrow> if tail = [] then [] else last tail)"

definition rfind :: "char \<Rightarrow> string \<Rightarrow> nat option" where
  \<comment> \<open>\<open>s.rfind(c)\<close>, with \<open>None\<close> for Python's \<open>-1\<close>\<close>
  "rfind c s =
     (if c \<in> set s then Some (length s - 1 - length (takeWhile (\<lambda>x. x \<noteq> c) (rev s)))
      else None)"

definition path_suffix :: "pure_path \<Rightarrow> string" where
  "path_suffix P =
     (let name = path_name P in
      case rfind CHR ''.'' name of
        None \<Rightarrow> []
      | Some i \<Rightarrow> if 0 < i \<and> i + 1 < length name then drop i name else [])"

definition path_stem :: "pure_path \<Rightarrow> string" where
  "path_stem P =
     (let name = path_name P in
      case rfind CHR ''.'' name of
        None \<Rightarrow> name
      | Some i \<Rightarrow> if 0 < i \<and> i + 1 < length name then take i name else name)"

definition path_parent :: "pure_path \<Rightarrow> pure_path" where
  "path_parent P = (case P of (root, tail) \<Rightarrow> if tail = [] then P else (root, butlast tail))"

definition posix_join :: "string \<Rightarrow> string \<Rightarrow> string" where
  \<comment> \<open>\<open>posixpath.join(a, b)\<close>\<close>
  "posix_join a b =
     (if startswith b ''/'' then b
      else if a = [] \<or> endswith a ''/'' then a @ b
      else a @ ''/'' @ b)"

definition path_div :: "pure_path \<Rightarrow> string \<Rightarrow> pure_path" where
  \<comment> \<open>\<open>P / s\<close>\<close>
  "path_div P s = Path (posix_join (str_of_path P) s)"

section \<open>Content classifier\<close>

definition prefix_rejects :: "string option \<Rightarrow> string \<Rightarrow> bool" where
  \<comment> \<open>\<open>prefix and not path_str.startswith(prefix)\<close>: \<open>None\<close> and the empty string are falsy\<close>
  "prefix_rejects pfx path_str =
     (case pfx of
        None \<Rightarrow> False
      | Some pre \<Rightarrow> pre \<noteq> [] \<and> \<not> startswith path_str pre)"

subsection \<open>\<open>find_esps_in_archive\<close>: the loop over the members\<close>

definition esp_step :: "string option \<Rightarrow> string list \<Rightarrow> member \<Rightarrow> string list" where
  "esp_step pfx esps m =
     (case m of (path_str, is_dir) \<Rightarrow>
        if is_dir then esps
        else if prefix_rejects pfx path_str then esps
        else if endswith (lower path_str) ''.esp'' then esps @ [path_str]
        else esps)"

definition find_esps :: "member list \<Rightarrow> string list" where
  "find_esps members = foldl (esp_step (detect_single_folder_prefix members)) [] members"

subsection \<open>\<open>find_pak_sets_in_archive\<close>: the loop over the members\<close>

text \<open>
  The dictionary with the keys \<open>pak\<close>, \<open>ucas\<close> and \<open>utoc\<close> is a record of three optional
  paths.  \<open>found_bases\<close> is an association list in insertion order, as a Python \<open>dict\<close>
  is; a key is inserted once and its record is updated in place.
\<close>

record pak_files =
  pak :: "string option"
  ucas :: "string option"
  utoc :: "string option"

definition no_files :: pak_files where
  "no_files = \<lparr>pak = None, ucas = None, utoc = None\<rparr>"

definition base_key_of :: "string \<Rightarrow> string" where
  \<comment> \<open>\<open>(path_obj.parent / path_obj.stem).as_posix().lower()\<close>\<close>
  "base_key_of path_to_check =
     (let path_obj = Path path_to_check
      in lower (str_of_path (path_div (path_parent path_obj) (path_stem path_obj))))"

definition ext_of :: "string \<Rightarrow> string" where
  \<comment> \<open>\<open>path_obj.suffix.lower()\<close>\<close>
  "ext_of path_to_check = lower (path_suffix (Path path_to_check))"

definition store_member :: "string \<Rightarrow> string \<Rightarrow> pak_files \<Rightarrow> pak_files" where
  "store_member ext path_str files =
     (if ext = ''.pak'' then files\<lparr>pak := Some path_str\<rparr>
      else if ext = ''.ucas'' then files\<lparr>ucas := Some path_str\<rparr>
      else if ext = ''.utoc'' then files\<lparr>utoc := Some path_str\<rparr>
      else files)"

definition pak_step ::
  "string option \<Rightarrow> (string \<times> pak_files) list \<Rightarrow> member \<Rightarrow> (string \<times> pak_files) list" where
  "pak_step pfx found_bases m =
     (case m of (path_str, is_dir) \<Rightarrow>
        if is_dir then found_bases
        else if prefix_rejects pfx path_str then found_bases
        else if endswith_any (lower path_str) PAK_EXTENSIONS then
          (let base_key = base_key_of path_str;
               found_bases1 =
                 (if base_key \<notin> set (map fst found_bases)
                  then found_bases @ [(base_key, no_files)] else found_bases);
               ext = ext_of path_str
           in map (\<lambda>(k, files). if k = base_key then (k, store_member ext path_str files)
                                 else (k, files)) found_bases1)
        else found_bases)"

definition truthy :: "string option \<Rightarrow> bool" where
  \<comment> \<open>Python truthiness of \<open>None\<close> or a string\<close>
  "truthy v = (case v of None \<Rightarrow> False | Some s \<Rightarrow> s \<noteq> [])"

definition complete_set :: "pak_files \<Rightarrow> bool" where
  "complete_set files = (truthy (pak files) \<and> truthy (ucas files) \<and> truthy (utoc files))"

definition found_bases_of :: "member list \<Rightarrow> (string \<times> pak_files) list" where
  "found_bases_of members = foldl (pak_step (detect_single_folder_prefix members)) [] members"

definition keyed_pak_sets :: "member list \<Rightarrow> (string \<times> pak_files) list" where
  \<comment> \<open>the second loop, with each kept record still paired with its key\<close>
  "keyed_pak_sets members = filter (\<lambda>(base_key, files). complete_set files) (found_bases_of members)"

definition find_pak_sets :: "member list \<Rightarrow> pak_files list" where
  "find_pak_sets members = map snd (keyed_pak_sets members)"

text \<open>The vocabulary of the claims about package grouping.\<close>

definition grouped :: "string option \<Rightarrow> member \<Rightarrow> bool" where
  \<comment> \<open>the entries that reach the grouping under a given prefix: files that pass the prefix
      filter and end in a package-member extension\<close>
  "grouped pfx m =
     (\<not> snd m \<and> \<not> prefix_rejects pfx (fst m) \<and> endswith_any (lower (fst m)) PAK_EXTENSIONS)"

definition pak_member :: "member list \<Rightarrow> member \<Rightarrow> bool" where
  \<comment> \<open>the same, under the prefix detected for the archive\<close>
  "pak_member members m = grouped (detect_single_folder_prefix members) m"









definition no_rival_members :: "member list \<Rightarrow> bool" where
  \<comment> \<open>no two grouped entries with different paths share key and extension\<close>
  "no_rival_members members =
     list_all (\<lambda>m. list_all (\<lambda>m'.
        \<not> (pak_member members m \<and> pak_member members m'
           \<and> base_key_of (fst m) = base_key_of (fst m') \<and> ext_of (fst m) = ext_of (fst m')
           \<and> fst m \<noteq> fst m')) members) members"

section \<open>Archive reader: \<open>_get_archive_member_list\<close>\<close>

text \<open>
  An exception is its class and its message.  The classes are the ones that the \<open>except\<close>
  clauses of the source tell apart, \<open>NameError\<close> and \<open>AttributeError\<close>, which evaluating
  the clauses themselves can raise, and \<open>OtherException\<close> for every other subclass of
  \<open>Exception\<close>.
\<close>

datatype exc_class =
  FileNotFoundError | BadZipFile | BadRarFile | Bad7zFile | ValueError | KeyError
  | RuntimeError | NameError | AttributeError | OtherException

type_synonym exc = "exc_class \<times> string"

text \<open>
  The two optional imports at the top of the module: \<open>RAR_SUPPORT\<close> is true exactly when
  \<open>import rarfile\<close> succeeded, so exactly when the name \<open>rarfile\<close> is bound, and
  \<open>SEVENZIP_SUPPORT\<close> likewise for \<open>py7zr\<close>.
\<close>

record environment =
  RAR_SUPPORT :: bool
  SEVENZIP_SUPPORT :: bool

datatype archive_format = Zip | Rar | SevenZip

text \<open>
  The archive libraries are a parameter: \<open>lib fmt archive_path\<close> is what opening the file
  with the library of that format and listing it does, an exception or the entries
  (file name, is-directory) in the archive's order.
\<close>

type_synonym archive_lib = "archive_format \<Rightarrow> string \<Rightarrow> exc + member list"

definition quoted :: "string \<Rightarrow> string" where
  "quoted s = [CHR 0x27] @ s @ [CHR 0x27]"

definition replace_backslash :: "string \<Rightarrow> string" where
  "replace_backslash s = map (\<lambda>c. if c = CHR 0x5C then CHR ''/'' else c) s"

definition archive_name :: "string \<Rightarrow> string" where
  \<comment> \<open>\<open>Path(archive_path).name\<close>\<close>
  "archive_name archive_path = path_name (Path archive_path)"

definition unbound_module :: "environment \<Rightarrow> exc option" where
  \<comment> \<open>evaluating the tuple \<open>(zipfile.BadZipFile, rarfile.BadRarFile,
      py7zr.exceptions.Bad7zFile, ...)\<close> of an \<open>except\<close> clause reads the names
      \<open>rarfile\<close> and \<open>py7zr\<close>, in this order; an unbound one raises \<open>NameError\<close>\<close>
  "unbound_module env =
     (if \<not> RAR_SUPPORT env then Some (NameError, ''name '' @ quoted ''rarfile'' @ '' is not defined'')
      else if \<not> SEVENZIP_SUPPORT env
      then Some (NameError, ''name '' @ quoted ''py7zr'' @ '' is not defined'')
      else None)"

definition missing_attribute :: exc where
  \<comment> \<open>evaluating \<open>rarfile.UnrarNotFound\<close>: the module \<open>rarfile\<close> has no attribute of this
      name, so the expression raises \<open>AttributeError\<close>\<close>
  "missing_attribute =
     (AttributeError,
      ''module '' @ quoted ''rarfile'' @ '' has no attribute '' @ quoted ''UnrarNotFound'')"

definition read_handlers :: "environment \<Rightarrow> string \<Rightarrow> exc \<Rightarrow> exc" where
  \<comment> \<open>the \<open>except\<close> clauses of \<open>_get_archive_member_list\<close>, tried in the source's order; a
      clause's class expression is evaluated only when the clauses before it did not match.
      An exception that the first two clauses do not match makes the third clause,
      \<open>except rarfile.UnrarNotFound\<close>, be evaluated, which raises; the last clause,
      \<open>except Exception\<close>, is never reached\<close>
  "read_handlers env archive_path e =
     (case e of (cls, msg) \<Rightarrow>
        if cls = FileNotFoundError
        then (FileNotFoundError, ''Archive not found: '' @ quoted archive_path)
        else (case unbound_module env of
                Some name_error \<Rightarrow> name_error
              | None \<Rightarrow>
                  if cls \<in> {BadZipFile, BadRarFile, Bad7zFile, ValueError}
                  then (ValueError,
                        ''Error reading '' @ quoted (archive_name archive_path) @ '': '' @ msg)
                  else missing_attribute))"

definition read_body :: "environment \<Rightarrow> archive_lib \<Rightarrow> string \<Rightarrow> exc + member list" where
  \<comment> \<open>the \<open>try\<close> block: dispatch on the lower-cased suffix of the archive path\<close>
  "read_body env lib archive_path =
     (let ext = lower (path_suffix (Path archive_path)) in
      if ext = ''.zip'' then lib Zip archive_path
      else if ext = ''.rar'' \<and> RAR_SUPPORT env then lib Rar archive_path
      else if ext = ''.7z'' \<and> SEVENZIP_SUPPORT env then lib SevenZip archive_path
      else Inl (ValueError, ''Unsupported/unavailable type: '' @ ext))"

definition get_archive_member_list ::
  "environment \<Rightarrow> archive_lib \<Rightarrow> string \<Rightarrow> exc + member list" where
  "get_archive_member_list env lib archive_path =
     (case read_body env lib archive_path of
        Inl e \<Rightarrow> Inl (read_handlers env archive_path e)
      | Inr infolist \<Rightarrow> Inr (map (\<lambda>(filename, is_dir). (replace_backslash filename, is_dir)) infolist))"

subsection \<open>The two classifier entry points\<close>

definition reraised :: "exc_class \<Rightarrow> bool" where
  \<comment> \<open>\<open>except (FileNotFoundError, ValueError, RuntimeError) as e: raise e\<close>\<close>
  "reraised cls = (cls \<in> {FileNotFoundError, ValueError, RuntimeError})"

definition find_esps_in_archive ::
  "environment \<Rightarrow> archive_lib \<Rightarrow> string \<Rightarrow> exc + string list" where
  "find_esps_in_archive env lib archive_path =
     (case get_archive_member_list env lib archive_path of
        Inr members \<Rightarrow> Inr (find_esps members)
      | Inl (cls, msg) \<Rightarrow>
          if reraised cls then Inl (cls, msg)
          else Inl (RuntimeError,
                    ''Error searching ESPs in '' @ quoted (archive_name archive_path)
                      @ '': '' @ msg))"

definition find_pak_sets_in_archive ::
  "environment \<Rightarrow> archive_lib \<Rightarrow> string \<Rightarrow> exc + pak_files list" where
  "find_pak_sets_in_archive env lib archive_path =
     (case get_archive_member_list env lib archive_path of
        Inr members \<Rightarrow> Inr (find_pak_sets members)
      | Inl (cls, msg) \<Rightarrow>
          if reraised cls then Inl (cls, msg)
          else Inl (RuntimeError,
                    ''Error searching Pak sets in '' @ quoted (archive_name archive_path)
                      @ '': '' @ msg))"

section \<open>Extraction: \<open>_extract_files_from_archive\<close>\<close>

text \<open>
  The file system and the archive libraries are a parameter of the extraction.
  \<open>ensure_directory_exists\<close> is the result of the helper of that name, which creates the
  directory and catches every \<open>OSError\<close>.  \<open>open_archive\<close> and \<open>close_archive\<close> are what
  entering and leaving the \<open>with\<close> block does, \<open>extract_member\<close> is
  \<open>arc.extract(member, target_dir)\<close> of \<open>zipfile\<close> and \<open>rarfile\<close>, and \<open>extract_targets\<close>
  is \<open>arc.extract(path=target_dir, targets=files_to_extract)\<close> of \<open>py7zr\<close>: each is the
  exception the call raises, or \<open>None\<close> when it returns.  \<open>path_exists\<close> is \<open>p.exists()\<close>
  for a destination path, asked after the extraction.  What \<open>print\<close> writes is returned
  beside the result.
\<close>

record extraction_world =
  ensure_directory_exists :: "string \<Rightarrow> bool"
  open_archive :: "archive_format \<Rightarrow> string \<Rightarrow> exc option"
  extract_member :: "archive_format \<Rightarrow> string \<Rightarrow> string \<Rightarrow> string \<Rightarrow> exc option"
  extract_targets :: "string \<Rightarrow> string \<Rightarrow> string list \<Rightarrow> exc option"
  close_archive :: "archive_format \<Rightarrow> string \<Rightarrow> exc option"
  path_exists :: "string \<Rightarrow> bool"

fun extract_loop ::
  "(string \<Rightarrow> exc option) \<Rightarrow> string \<Rightarrow> string list \<Rightarrow> pure_path list \<Rightarrow> exc + pure_path list" where
  "extract_loop extract target_dir [] extracted_paths = Inr extracted_paths"
| "extract_loop extract target_dir (member # rest) extracted_paths =
     (case extract member of
        Some e \<Rightarrow> Inl e
      | None \<Rightarrow>
          extract_loop extract target_dir rest
            (extracted_paths @ [path_div (Path target_dir) member]))"

definition with_archive ::
  "extraction_world \<Rightarrow> archive_format \<Rightarrow> string \<Rightarrow> exc + 'a \<Rightarrow> exc + 'a" where
  \<comment> \<open>the \<open>with\<close> statement: an exception of the opening call, else one of the closing call,
      else what the block does\<close>
  "with_archive w fmt archive_path block =
     (case open_archive w fmt archive_path of
        Some e \<Rightarrow> Inl e
      | None \<Rightarrow>
          (case close_archive w fmt archive_path of
             Some e \<Rightarrow> Inl e
           | None \<Rightarrow> block))"

definition extract_body ::
  "environment \<Rightarrow> extraction_world \<Rightarrow> string \<Rightarrow> string list \<Rightarrow> string \<Rightarrow> exc + pure_path list" where
  \<comment> \<open>the \<open>try\<close> block up to the check of the destinations\<close>
  "extract_body env w archive_path files_to_extract target_dir =
     (let ext = lower (path_suffix (Path archive_path)) in
      if ext = ''.zip'' then
        with_archive w Zip archive_path
          (extract_loop (\<lambda>member. extract_member w Zip archive_path member target_dir)
             target_dir files_to_extract [])
      else if ext = ''.rar'' \<and> RAR_SUPPORT env then
        with_archive w Rar archive_path
          (extract_loop (\<lambda>member. extract_member w Rar archive_path member target_dir)
             target_dir files_to_extract [])
      else if ext = ''.7z'' \<and> SEVENZIP_SUPPORT env then
        with_archive w SevenZip archive_path
          (case extract_targets w archive_path target_dir files_to_extract of
             Some e \<Rightarrow> Inl e
           | None \<Rightarrow> Inr (map (\<lambda>member. path_div (Path target_dir) member) files_to_extract))
      else Inl (ValueError, ''Unsupported type for extraction: '' @ ext))"

definition extract_handlers :: "environment \<Rightarrow> string \<Rightarrow> exc \<Rightarrow> exc" where
  \<comment> \<open>the \<open>except\<close> clauses of \<open>_extract_files_from_archive\<close>, tried in the source's order;
      as in the reader, evaluating the third clause raises and the last one is never reached\<close>
  "extract_handlers env archive_path e =
     (case e of (cls, msg) \<Rightarrow>
        if cls = FileNotFoundError
        then (FileNotFoundError, ''Archive not found: '' @ quoted archive_path)
        else (case unbound_module env of
                Some name_error \<Rightarrow> name_error
              | None \<Rightarrow>
                  if cls \<in> {KeyError, BadZipFile, BadRarFile, Bad7zFile, ValueError}
                  then (ValueError,
                        ''Error extracting from '' @ quoted (archive_name archive_path)
                          @ '': '' @ msg)
                  else missing_attribute))"

definition missing_warnings :: "extraction_world \<Rightarrow> pure_path list \<Rightarrow> string list" where
  \<comment> \<open>\<open>for p in extracted_paths: if not p.exists(): print(...)\<close>\<close>
  "missing_warnings w extracted_paths =
     map (\<lambda>p. ''WARNING: Extracted file missing: '' @ str_of_path p)
       (filter (\<lambda>p. \<not> path_exists w (str_of_path p)) extracted_paths)"

definition extract_files_from_archive ::
  "environment \<Rightarrow> extraction_world \<Rightarrow> string \<Rightarrow> string list \<Rightarrow> string
     \<Rightarrow> (exc + string list) \<times> string list" where
  "extract_files_from_archive env w archive_path files_to_extract target_dir =
     (if \<not> ensure_directory_exists w target_dir
      then (Inl (RuntimeError, ''Failed target dir: '' @ target_dir), [])
      else (case extract_body env w archive_path files_to_extract target_dir of
              Inl e \<Rightarrow> (Inl (extract_handlers env archive_path e), [])
            | Inr extracted_paths \<Rightarrow>
                (Inr (map str_of_path extracted_paths), missing_warnings w extracted_paths)))"

text \<open>The vocabulary of the claim about extraction.\<close>

definition destination :: "string \<Rightarrow> string \<Rightarrow> string" where
  \<comment> \<open>the target directory joined with the path of the entry in the archive\<close>
  "destination target_dir member = str_of_path (path_div (Path target_dir) member)"

definition chosen_format :: "environment \<Rightarrow> string \<Rightarrow> archive_format option" where
  "chosen_format env archive_path =
     (let ext = lower (path_suffix (Path archive_path)) in
      if ext = ''.zip'' then Some Zip
      else if ext = ''.rar'' \<and> RAR_SUPPORT env then Some Rar
      else if ext = ''.7z'' \<and> SEVENZIP_SUPPORT env then Some SevenZip
      else None)"

definition extraction_completes ::
  "environment \<Rightarrow> extraction_world \<Rightarrow> string \<Rightarrow> string list \<Rightarrow> string \<Rightarrow> bool" where
  \<comment> \<open>the extraction of the archive's format runs, and none of its calls raises\<close>
  "extraction_completes env w archive_path files_to_extract target_dir =
     (case chosen_format env archive_path of
        None \<Rightarrow> False
      | Some fmt \<Rightarrow>
          open_archive w fmt archive_path = None
          \<and> (if fmt = SevenZip
             then extract_targets w archive_path target_dir files_to_extract = None
             else list_all (\<lambda>member. extract_member w fmt archive_path member target_dir = None)
                    files_to_extract)
          \<and> close_archive w fmt archive_path = None)"

definition missing_warning :: "string \<Rightarrow> string" where
  "missing_warning p = ''WARNING: Extracted file missing: '' @ p"

section \<open>The load-order file: \<open>read_plugins_file\<close> and \<open>write_plugins_file\<close>\<close>

text \<open>
  The file \<open>plugins.txt\<close> and what can go wrong with it are a record.  \<open>plugins_txt\<close> is
  the text of the file as the text layer of Python holds it before any translation of line
  ends, \<open>None\<close> when the file does not exist.  \<open>read_fault\<close> is the exception that opening
  the file for reading, or reading and decoding it, raises; \<open>directory_ensured\<close> is the
  result of \<open>ensure_directory_exists\<close> for the directory of the file; \<open>open_fault\<close> is the
  exception that opening the file for writing raises; \<open>write_fault = Some (n, e)\<close> says that
  the call number \<open>n\<close> of \<open>f.write\<close>, counted from 0, raises \<open>e\<close> (the text cannot be
  encoded, the disk is full).  Both functions open the file in text mode with the default
  \<open>newline=None\<close>: on writing, each line feed becomes \<open>os.linesep\<close>; on reading, \<open>\r\n\<close>
  and \<open>\r\<close> become a line feed.  The lines that \<open>print\<close> writes are not modelled.
\<close>

datatype platform = Posix | Windows

definition linesep :: "platform \<Rightarrow> string" where
  "linesep pf = (case pf of Posix \<Rightarrow> [CHR 0x0A] | Windows \<Rightarrow> [CHR 0x0D, CHR 0x0A])"

record plugins_world =
  os_platform :: platform
  plugins_txt :: "string option"
  read_fault :: "exc option"
  directory_ensured :: bool
  open_fault :: "exc option"
  write_fault :: "(nat \<times> exc) option"

text \<open>
  \<open>s.strip()\<close> removes the characters for which \<open>str.isspace\<close> holds from both ends; among
  the first 256 code points these are 9 to 13, 28 to 32, 133 and 160.
\<close>

definition is_space :: "char \<Rightarrow> bool" where
  "is_space c =
     (c \<in> set [CHR 0x09, CHR 0x0A, CHR 0x0B, CHR 0x0C, CHR 0x0D, CHR 0x1C, CHR 0x1D, CHR 0x1E,
               CHR 0x1F, CHR 0x20, CHR 0x85, CHR 0xA0])"

definition strip :: "string \<Rightarrow> string" where
  "strip s = rev (dropWhile is_space (rev (dropWhile is_space s)))"

text \<open>
  The translation of line ends on reading; the flag says that the character before was a
  carriage return, which has been turned into a line feed already.
\<close>

fun universal_newlines :: "bool \<Rightarrow> string \<Rightarrow> string" where
  "universal_newlines pendingcr [] = []"
| "universal_newlines pendingcr (c # cs) =
     (if c = CHR 0x0A \<and> pendingcr then universal_newlines False cs
      else if c = CHR 0x0D then CHR 0x0A # universal_newlines True cs
      else c # universal_newlines False cs)"

text \<open>\<open>for ln in f\<close>: the lines of the text, each with its line feed; the last line may lack it.\<close>

fun file_lines :: "string \<Rightarrow> string list" where
  "file_lines [] = []"
| "file_lines (c # cs) =
     (if c = CHR 0x0A then [c] # file_lines cs
      else (case file_lines cs of
              [] \<Rightarrow> [[c]]
            | ln # lns \<Rightarrow> (c # ln) # lns))"

definition read_plugins_file :: "plugins_world \<Rightarrow> exc + string list" where
  "read_plugins_file w =
     (case plugins_txt w of
        None \<Rightarrow> Inr []
      | Some text \<Rightarrow>
          (case read_fault w of
             Some e \<Rightarrow> Inl e
           | None \<Rightarrow>
               Inr (map strip
                      (filter (\<lambda>ln. strip ln \<noteq> [] \<and> \<not> startswith (strip ln) ''#'')
                         (file_lines (universal_newlines False text))))))"

definition translate_newlines :: "platform \<Rightarrow> string \<Rightarrow> string" where
  "translate_newlines pf s = concat (map (\<lambda>c. if c = CHR 0x0A then linesep pf else [c]) s)"

definition write_raises :: "(nat \<times> exc) option \<Rightarrow> nat \<Rightarrow> bool" where
  "write_raises fault n = (case fault of None \<Rightarrow> False | Some (k, e) \<Rightarrow> k = n)"

text \<open>
  The loop of \<open>write_plugins_file\<close>: \<open>n\<close> counts the calls of \<open>f.write\<close>, \<open>text\<close> is what has
  been written.  A call that raises writes nothing; what was written before stays in the file.
\<close>

fun write_loop ::
  "platform \<Rightarrow> (nat \<times> exc) option \<Rightarrow> nat \<Rightarrow> string list \<Rightarrow> string \<Rightarrow> bool \<times> string" where
  "write_loop pf fault n [] text = (True, text)"
| "write_loop pf fault n (plugin # rest) text =
     (if plugin = [] then write_loop pf fault n rest text
      else if write_raises fault n then (False, text)
      else write_loop pf fault (Suc n) rest
             (text @ translate_newlines pf (plugin @ [CHR 0x0A])))"

definition write_plugins_file :: "plugins_world \<Rightarrow> string list \<Rightarrow> bool \<times> plugins_world" where
  \<comment> \<open>the returned truth value, and the file system afterwards\<close>
  "write_plugins_file w plugins_list =
     (if \<not> directory_ensured w then (False, w)
      else (case open_fault w of
              Some e \<Rightarrow> (False, w)
            | None \<Rightarrow>
                (case write_loop (os_platform w) (write_fault w) 0 plugins_list [] of
                   (ok, text) \<Rightarrow> (ok, w\<lparr>plugins_txt := Some text\<rparr>))))"

text \<open>The vocabulary of the claim about the round trip.\<close>

definition entry_as_claimed :: "string \<Rightarrow> bool" where
  \<comment> \<open>non-empty, equal to its stripped form, not beginning with \<open>#\<close>\<close>
  "entry_as_claimed p = (p \<noteq> [] \<and> strip p = p \<and> \<not> startswith p ''#'')"

definition no_line_break :: "string \<Rightarrow> bool" where
  "no_line_break p = (CHR 0x0A \<notin> set p \<and> CHR 0x0D \<notin> set p)"

definition kept_entry :: "string \<Rightarrow> bool" where
  \<comment> \<open>what every entry that is read satisfies\<close>
  "kept_entry q = (q \<noteq> [] \<and> \<not> startswith q ''#'')"

section \<open>Reordering the load order: \<open>process_load_order\<close>\<close>

text \<open>
  The console is the list of the lines that the user enters, in order; when the list is
  used up, \<open>input\<close> raises \<open>EOFError\<close>, which the function treats as \<open>KeyboardInterrupt\<close>:
  it returns.  What \<open>print\<close> writes is not modelled.
\<close>

definition DEFAULT_PLUGINS :: "string list" where
  "DEFAULT_PLUGINS =
     [''oblivion.esm'', ''dlcbattlehorncastle.esp'', ''dlcfrostcrag.esp'', ''dlchorsearmor.esp'',
      ''dlcmehrunesrazor.esp'', ''dlcorrery.esp'', ''dlcshiveringisles.esp'',
      ''dlcspelltomes.esp'', ''dlcthievesden.esp'', ''dlcvilelair.esp'', ''knights.esp'',
      ''altarespmain.esp'', ''altardeluxe.esp'', ''altaresplocal.esp'']"

definition section_step ::
  "string list \<times> string list \<Rightarrow> string \<Rightarrow> string list \<times> string list" where
  \<comment> \<open>the body of the loop that separates the plugins\<close>
  "section_step st plugin =
     (case st of (default_section, custom_section) \<Rightarrow>
        if lower plugin \<in> set (map lower DEFAULT_PLUGINS)
        then (default_section @ [plugin], custom_section)
        else (default_section, custom_section @ [plugin]))"

text \<open>
  \<open>re.findall(r'\d+', s)\<close>: the maximal runs of digits, from left to right; \<open>run\<close> is the
  run that is being read.
\<close>

definition is_digit :: "char \<Rightarrow> bool" where
  "is_digit c = (c \<in> set ''0123456789'')"

fun findall_digits :: "string \<Rightarrow> string \<Rightarrow> string list" where
  "findall_digits run [] = (if run = [] then [] else [run])"
| "findall_digits run (c # cs) =
     (if is_digit c then findall_digits (run @ [c]) cs
      else (if run = [] then [] else [run]) @ findall_digits [] cs)"

definition digit_value :: "char \<Rightarrow> int" where
  "digit_value c =
     (case map_of (zip ''0123456789'' [0, 1, 2, 3, 4, 5, 6, 7, 8, 9]) c of
        Some d \<Rightarrow> d
      | None \<Rightarrow> 0)"

definition int_of_digits :: "string \<Rightarrow> int" where
  \<comment> \<open>\<open>int(s)\<close> for a string of digits\<close>
  "int_of_digits s = foldl (\<lambda>n c. 10 * n + digit_value c) 0 s"

definition int_raises :: "nat \<Rightarrow> string \<Rightarrow> bool" where
  \<comment> \<open>\<open>int(s)\<close> raises \<open>ValueError\<close> for a string of more digits than
      \<open>sys.get_int_max_str_digits()\<close>; the limit 0 means that there is none\<close>
  "int_raises int_max_str_digits s = (0 < int_max_str_digits \<and> int_max_str_digits < length s)"

text \<open>
  The \<open>while True\<close> loop.  The result is the list that is passed to \<open>write_plugins_file\<close>,
  or \<open>None\<close> when the function returns without writing.
\<close>

fun reorder_loop :: "nat \<Rightarrow> string list \<Rightarrow> string list \<Rightarrow> string list \<Rightarrow> string list option" where
  "reorder_loop int_max_str_digits default_section custom_section [] = None"
| "reorder_loop int_max_str_digits default_section custom_section (line # rest) =
     (let new_order_input = strip line in
      if new_order_input = [] then None
      else
        (let new_indices_str = findall_digits [] new_order_input in
         if new_indices_str = []
         then reorder_loop int_max_str_digits default_section custom_section rest
         else if list_ex (int_raises int_max_str_digits) new_indices_str
         then reorder_loop int_max_str_digits default_section custom_section rest
         else
           (let new_indices = map (\<lambda>i. int_of_digits i - 1) new_indices_str;
                num_custom = length custom_section in
            if length new_indices \<noteq> num_custom
            then reorder_loop int_max_str_digits default_section custom_section rest
            else if \<not> list_all (\<lambda>idx. 0 \<le> idx \<and> idx < int num_custom) new_indices
            then reorder_loop int_max_str_digits default_section custom_section rest
            else if length (remdups new_indices) \<noteq> num_custom
            then reorder_loop int_max_str_digits default_section custom_section rest
            else
              (let new_custom_section = map (\<lambda>i. custom_section ! nat i) new_indices in
               case rest of
                 [] \<Rightarrow> None
               | answer # unread \<Rightarrow>
                   (let confirm = strip (lower answer) in
                    if confirm = ''y'' then Some (default_section @ new_custom_section)
                    else None)))))"

definition load_order_request :: "nat \<Rightarrow> string list \<Rightarrow> string list \<Rightarrow> string list option" where
  \<comment> \<open>\<open>process_load_order\<close> after the file has been read: the argument of its call of
      \<open>write_plugins_file\<close>, if there is one\<close>
  "load_order_request int_max_str_digits all_plugins console =
     (case foldl section_step ([], []) all_plugins of (default_section, custom_section) \<Rightarrow>
        if custom_section = [] then None
        else reorder_loop int_max_str_digits default_section custom_section console)"

definition process_load_order :: "nat \<Rightarrow> plugins_world \<Rightarrow> string list \<Rightarrow> plugins_world" where
  \<comment> \<open>the file system after the call\<close>
  "process_load_order int_max_str_digits w console =
     (case read_plugins_file w of
        Inl e \<Rightarrow> w
      | Inr all_plugins \<Rightarrow>
          (case load_order_request int_max_str_digits all_plugins console of
             None \<Rightarrow> w
           | Some final_plugin_list \<Rightarrow> snd (write_plugins_file w final_plugin_list)))"

text \<open>The vocabulary of the claim about reordering.\<close>

definition is_default :: "string \<Rightarrow> bool" where
  "is_default plugin = (lower plugin \<in> set (map lower DEFAULT_PLUGINS))"

definition default_entries :: "string list \<Rightarrow> string list" where
  "default_entries all_plugins = filter is_default all_plugins"

definition custom_entries :: "string list \<Rightarrow> string list" where
  "custom_entries all_plugins = filter (\<lambda>plugin. \<not> is_default plugin) all_plugins"

definition entered_numbers :: "string \<Rightarrow> int list" where
  "entered_numbers line = map int_of_digits (findall_digits [] (strip line))"

definition permutation_of_1_to :: "nat \<Rightarrow> int list \<Rightarrow> bool" where
  \<comment> \<open>the right count, every number in range, no number twice\<close>
  "permutation_of_1_to n numbers =
     (length numbers = n \<and> list_all (\<lambda>k. 1 \<le> k \<and> k \<le> int n) numbers \<and> distinct numbers)"

definition reordered :: "string list \<Rightarrow> int list \<Rightarrow> string list" where
  \<comment> \<open>the custom entries in the order that the numbers give\<close>
  "reordered custom_section numbers = map (\<lambda>k. custom_section ! nat (k - 1)) numbers"

definition accepted_for :: "string list \<Rightarrow> string list \<Rightarrow> string list \<Rightarrow> string \<Rightarrow> bool" where
  \<comment> \<open>the line is a permutation of the numbers of the custom entries, and the written list is
      the default entries followed by the custom entries in the order of the line\<close>
  "accepted_for default_section custom_section final line =
     (permutation_of_1_to (length custom_section) (entered_numbers line)
      \<and> final = default_section @ reordered custom_section (entered_numbers line))"

section \<open>Basic facts\<close>

lemma split_on_not_Nil: "split_on c s \<noteq> []"
  by (induction s) (auto split: list.splits)

lemma length_split_on_pos: "0 < length (split_on c s)"
  using split_on_not_Nil [of c s] by simp

lemma path_parts_of_not_Nil: "path_parts_of p \<noteq> []"
  by (simp add: path_parts_of_def split_on_not_Nil)

lemma depth_pos: "0 < depth m"
  by (simp add: depth_def path_parts_of_def split_on_not_Nil)

lemma scan_member_flag_mono: "snd st \<Longrightarrow> snd (scan_member st m)"
  by (cases st; cases m) (simp add: scan_member_def Let_def)

lemma foldl_scan_flag_mono: "snd st \<Longrightarrow> snd (foldl scan_member st ms)"
  by (induction ms arbitrary: st) (simp_all add: scan_member_flag_mono)

lemma not_ignorable_relevant:
  "endswith_any (lower s) RELEVANT_EXTENSIONS \<Longrightarrow> lower s \<notin> set IGNORE_ITEMS"
  by (auto simp: endswith_any_def endswith_def RELEVANT_EXTENSIONS_def PAK_EXTENSIONS_def
      IGNORE_ITEMS_def suffix_to_prefix)

lemma scan_member_relevant: "relevant_root_file m \<Longrightarrow> snd (scan_member st m)"
  using not_ignorable_relevant [of "hd (path_parts_of (fst m))"]
  by (cases st; cases m)
    (simp add: scan_member_def relevant_root_file_def depth_def first_segment_def
      path_parts_of_not_Nil split_on_not_Nil)

lemma foldl_scan_relevant:
  "list_ex relevant_root_file ms \<Longrightarrow> snd (foldl scan_member st ms)"
proof (induction ms arbitrary: st)
  case Nil
  then show ?case by simp
next
  case (Cons m ms)
  show ?case
  proof (cases "relevant_root_file m")
    case True
    then have "snd (scan_member st m)" by (rule scan_member_relevant)
    then show ?thesis by (simp add: foldl_scan_flag_mono)
  next
    case False
    with Cons.prems have "list_ex relevant_root_file ms" by simp
    then show ?thesis by (simp add: Cons.IH)
  qed
qed

section \<open>Prefix detection: a relevant file at the root disqualifies\<close>

text \<open>
  Claim C3.  Whenever the member list contains a non-directory entry at depth 1 whose
  lower-cased name ends in \<open>.esp\<close>, \<open>.pak\<close>, \<open>.ucas\<close> or \<open>.utoc\<close>,
  \<open>_detect_single_folder_prefix\<close> returns \<open>None\<close>, whatever folders the archive has.
\<close>

theorem detect_none_on_relevant_root_file:
  assumes "list_ex relevant_root_file ms"
  shows "detect_single_folder_prefix ms = None"
proof -
  have "snd (foldl scan_member ([], False) ms)"
    using assms by (rule foldl_scan_relevant)
  then obtain dirs where "foldl scan_member ([], False) ms = (dirs, True)"
    by (cases "foldl scan_member ([], False) ms") simp
  then show ?thesis
    by (simp add: detect_single_folder_prefix_def)
qed

theorem detect_none_on_relevant_root_file_witness:
  "list_ex relevant_root_file
     [(''Mod/'', True), (''Mod/data.bsa'', False), (''Plugin.ESP'', False)]
   \<and> detect_single_folder_prefix
     [(''Mod/'', True), (''Mod/data.bsa'', False), (''Plugin.ESP'', False)] = None"
proof -
  have h: "list_ex relevant_root_file
     [(''Mod/'', True), (''Mod/data.bsa'', False), (''Plugin.ESP'', False)]"
    by (simp add: relevant_root_file_def depth_def first_segment_def path_parts_of_def
        strip_slash_def endswith_any_def endswith_def RELEVANT_EXTENSIONS_def
        PAK_EXTENSIONS_def lower_def lower_char_def suffix_to_prefix)
  from h detect_none_on_relevant_root_file [OF h] show ?thesis by simp
qed

section \<open>What the scan loop of prefix detection computes\<close>

lemma length_parts_ge: "Suc 0 \<le> length (path_parts_of p)"
  using path_parts_of_not_Nil [of p] by (cases "path_parts_of p") auto

lemma scan_member_eq:
  "scan_member st m =
     (if names_folder m then List.insert (first_segment (fst m)) (fst st) else fst st,
      snd st \<or> relevant_root_file m)"
  using not_ignorable_relevant [of "hd (path_parts_of (fst m))"] length_parts_ge [of "fst m"]
  by (cases st; cases m)
    (auto simp: scan_member_def names_folder_def relevant_root_file_def ignorable_def
      first_segment_def depth_def Let_def path_parts_of_not_Nil)

lemma foldl_scan_dirs:
  "set (fst (foldl scan_member st ms)) =
     set (fst st) \<union> (first_segment \<circ> fst) ` {m \<in> set ms. names_folder m}"
  by (induction ms arbitrary: st) (auto simp: scan_member_eq)

lemma foldl_scan_distinct:
  "distinct (fst st) \<Longrightarrow> distinct (fst (foldl scan_member st ms))"
  by (induction ms arbitrary: st) (auto simp: scan_member_eq)

lemma foldl_scan_flag:
  "snd (foldl scan_member st ms) = (snd st \<or> (\<exists>m \<in> set ms. relevant_root_file m))"
  by (induction ms arbitrary: st) (auto simp: scan_member_eq)

lemma distinct_singleton: "distinct xs \<Longrightarrow> set xs = {s} \<Longrightarrow> xs = [s]"
  by (cases xs) (auto simp: insert_eq_iff dest: subset_singletonD)


lemma detect_Some_nonempty: "detect_single_folder_prefix ms = Some pre \<Longrightarrow> pre \<noteq> []"
  by (auto simp: detect_single_folder_prefix_def Let_def split: prod.splits if_splits)

lemma prefix_rejects_detect:
  "prefix_rejects (detect_single_folder_prefix ms) p =
     (case detect_single_folder_prefix ms of None \<Rightarrow> False | Some pre \<Rightarrow> \<not> startswith p pre)"
  by (auto simp: prefix_rejects_def dest: detect_Some_nonempty split: option.splits)


section \<open>Prefix detection: a single top folder is found\<close>

text \<open>
  Claim C2, as the specification states it: whenever every non-ignorable entry has the
  same first path segment and no file with a relevant extension lies at depth 1, the
  detected prefix is that segment followed by a slash.  The statement fails for an archive
  whose only entry is the file \<open>readme.txt\<close>: its first segment is the same for every
  entry, it has no relevant extension, and yet no prefix is detected, because only a
  directory entry, or an entry below depth 1, makes a segment a top-level folder.
\<close>

theorem detect_single_folder_counterexample:
  "all_first_segments_are ''readme.txt'' [(''readme.txt'', False)]
   \<and> \<not> list_ex relevant_root_file [(''readme.txt'', False)]
   \<and> detect_single_folder_prefix [(''readme.txt'', False)] = None
   \<and> detect_single_folder_prefix [(''readme.txt'', False)] \<noteq> Some ''readme.txt/''"
  by (simp add: all_first_segments_are_def relevant_root_file_def ignorable_def first_segment_def
     depth_def path_parts_of_def strip_slash_def endswith_any_def endswith_def
     RELEVANT_EXTENSIONS_def PAK_EXTENSIONS_def IGNORE_ITEMS_def lower_def lower_char_def
     suffix_to_prefix detect_single_folder_prefix_def scan_member_def)

text \<open>
  Claim C2, amended: whenever every non-ignorable entry has the first path segment \<open>s\<close>,
  at least one non-ignorable entry shows \<open>s\<close> to be a folder (it is a directory entry, or it
  lies below depth 1), and no file with a relevant extension lies at depth 1, then
  \<open>_detect_single_folder_prefix\<close> returns \<open>s\<close> followed by a slash.
\<close>

theorem detect_single_folder:
  assumes all: "all_first_segments_are s ms"
    and folder: "list_ex names_folder ms"
    and norel: "\<not> list_ex relevant_root_file ms"
  shows "detect_single_folder_prefix ms = Some (s @ ''/'')"
proof -
  obtain dirs flag where st: "foldl scan_member ([], False) ms = (dirs, flag)"
    by (cases "foldl scan_member ([], False) ms")
  have seg: "first_segment (fst m) = s" if "m \<in> set ms" "\<not> ignorable m" for m
    using all that by (auto simp: all_first_segments_are_def list_all_iff)
  from folder obtain m0 where m0: "m0 \<in> set ms" "names_folder m0"
    by (auto simp: list_ex_iff)
  then have s_ok: "lower s \<notin> set IGNORE_ITEMS"
    using seg [of m0] by (auto simp: names_folder_def ignorable_def)
  have "set dirs = (first_segment \<circ> fst) ` {m \<in> set ms. names_folder m}"
    using foldl_scan_dirs [of "([], False)" ms] st by simp
  also have "\<dots> = {s}"
    using m0 seg by (auto simp: names_folder_def)
  finally have "set dirs = {s}" .
  moreover have "distinct dirs"
    using foldl_scan_distinct [of "([], False)" ms] st by simp
  ultimately have dirs: "dirs = [s]" by (simp add: distinct_singleton)
  have flag: "\<not> flag"
    using foldl_scan_flag [of "([], False)" ms] st norel by (simp add: list_ex_iff)
  have inside: "list_all (\<lambda>m. hd (path_parts_of (fst m)) = s) (filter counted_for_all_inside ms)"
    using seg by (auto simp: list_all_iff counted_for_all_inside_def ignorable_def first_segment_def)
  show ?thesis
    using st dirs flag s_ok inside by (simp add: detect_single_folder_prefix_def)
qed

theorem detect_single_folder_witness:
  "all_first_segments_are ''ModName'' [(''ModName/Plugin.esp'', False), (''.DS_Store'', False)]
   \<and> list_ex names_folder [(''ModName/Plugin.esp'', False), (''.DS_Store'', False)]
   \<and> \<not> list_ex relevant_root_file [(''ModName/Plugin.esp'', False), (''.DS_Store'', False)]
   \<and> detect_single_folder_prefix [(''ModName/Plugin.esp'', False), (''.DS_Store'', False)]
       = Some ''ModName/''"
proof -
  let ?ms = "[(''ModName/Plugin.esp'', False), (''.DS_Store'', False)]"
  have h1: "all_first_segments_are ''ModName'' ?ms"
    by (simp add: all_first_segments_are_def ignorable_def first_segment_def path_parts_of_def
        strip_slash_def IGNORE_ITEMS_def lower_def lower_char_def)
  have h2: "list_ex names_folder ?ms"
    by (simp add: names_folder_def ignorable_def first_segment_def depth_def path_parts_of_def
        strip_slash_def IGNORE_ITEMS_def lower_def lower_char_def)
  have h3: "\<not> list_ex relevant_root_file ?ms"
    by (simp add: relevant_root_file_def first_segment_def depth_def path_parts_of_def
        strip_slash_def endswith_any_def endswith_def RELEVANT_EXTENSIONS_def
        PAK_EXTENSIONS_def lower_def lower_char_def suffix_to_prefix)
  from h1 h2 h3 detect_single_folder [OF h1 h2 h3] show ?thesis by simp
qed

section \<open>Plugin search\<close>

lemma foldl_esp_step:
  "foldl (esp_step pfx) acc ms =
     acc @ map fst (filter (\<lambda>m. \<not> snd m \<and> \<not> prefix_rejects pfx (fst m)
                                \<and> endswith (lower (fst m)) ''.esp'') ms)"
  by (induction ms arbitrary: acc) (auto simp: esp_step_def)

lemma find_esps_filter:
  "find_esps ms =
     map fst (filter (\<lambda>m. \<not> snd m
                 \<and> (case detect_single_folder_prefix ms of
                      None \<Rightarrow> True
                    | Some pre \<Rightarrow> startswith (fst m) pre)
                 \<and> endswith (lower (fst m)) ''.esp'') ms)"
proof -
  have "(\<not> prefix_rejects (detect_single_folder_prefix ms) p) =
      (case detect_single_folder_prefix ms of None \<Rightarrow> True | Some pre \<Rightarrow> startswith p pre)" for p
    by (simp add: prefix_rejects_detect split: option.splits)
  then show ?thesis
    by (simp add: find_esps_def foldl_esp_step)
qed

text \<open>
  Claim C4.  When the reader yields the member list, \<open>find_esps_in_archive\<close> returns
  exactly the paths of the non-directory members whose lower-cased path ends in \<open>.esp\<close>
  and, if a wrapping prefix is detected, whose path starts with that prefix; the paths
  are the original ones, in the order of the archive.  The witness is the scenario of the
  specification: an archive \<open>mod.zip\<close> holding only \<open>ModName/Plugin.esp\<close>.
\<close>

theorem find_esps_in_archive_exact:
  assumes "get_archive_member_list env lib archive_path = Inr members"
  shows "find_esps_in_archive env lib archive_path =
     Inr (map fst (filter (\<lambda>m. \<not> snd m
                 \<and> (case detect_single_folder_prefix members of
                      None \<Rightarrow> True
                    | Some pre \<Rightarrow> startswith (fst m) pre)
                 \<and> endswith (lower (fst m)) ''.esp'') members))"
  using assms by (simp add: find_esps_in_archive_def find_esps_filter)

theorem find_esps_in_archive_exact_witness:
  "get_archive_member_list \<lparr>RAR_SUPPORT = True, SEVENZIP_SUPPORT = True\<rparr>
       (\<lambda>fmt p. Inr [(''ModName/Plugin.esp'', False)]) ''mod.zip''
     = Inr [(''ModName/Plugin.esp'', False)]
   \<and> detect_single_folder_prefix [(''ModName/Plugin.esp'', False)] = Some ''ModName/''
   \<and> find_esps_in_archive \<lparr>RAR_SUPPORT = True, SEVENZIP_SUPPORT = True\<rparr>
       (\<lambda>fmt p. Inr [(''ModName/Plugin.esp'', False)]) ''mod.zip''
     = Inr [''ModName/Plugin.esp'']"
proof -
  let ?env = "\<lparr>RAR_SUPPORT = True, SEVENZIP_SUPPORT = True\<rparr>"
  let ?lib = "\<lambda>(fmt :: archive_format) (p :: string). (Inr [(''ModName/Plugin.esp'', False)] :: exc + member list)"
  have h: "get_archive_member_list ?env ?lib ''mod.zip'' = Inr [(''ModName/Plugin.esp'', False)]"
    by (simp add: get_archive_member_list_def read_body_def path_suffix_def Path_def
        splitroot_def path_name_def rfind_def lower_def lower_char_def replace_backslash_def)
  have d: "detect_single_folder_prefix [(''ModName/Plugin.esp'', False)] = Some ''ModName/''"
    by (simp add: detect_single_folder_prefix_def scan_member_def path_parts_of_def
        strip_slash_def IGNORE_ITEMS_def lower_def lower_char_def counted_for_all_inside_def)
  have "find_esps_in_archive ?env ?lib ''mod.zip'' = Inr [''ModName/Plugin.esp'']"
    using find_esps_in_archive_exact [OF h]
    by (simp add: d startswith_def endswith_def lower_def lower_char_def suffix_to_prefix)
  with h d show ?thesis by simp
qed

section \<open>Failures of the archive reader\<close>

text \<open>
  Whatever the libraries do, the reader raises one of four classes.  \<open>RuntimeError\<close> is not
  among them: the two clauses of the reader that would raise it are never reached.
\<close>

lemma reader_error_classes:
  assumes "get_archive_member_list env lib archive_path = Inl (cls, msg)"
  shows "cls \<in> {FileNotFoundError, ValueError, NameError, AttributeError}"
  using assms
  by (auto simp: get_archive_member_list_def read_handlers_def unbound_module_def
      missing_attribute_def split: sum.splits prod.splits if_splits option.splits)

lemma reader_unexpected_failure:
  assumes "RAR_SUPPORT env" "SEVENZIP_SUPPORT env"
    and "read_body env lib archive_path = Inl (cls, msg)"
    and "cls \<notin> {FileNotFoundError, BadZipFile, BadRarFile, Bad7zFile, ValueError}"
  shows "get_archive_member_list env lib archive_path = Inl missing_attribute"
  using assms
  by (simp add: get_archive_member_list_def read_handlers_def unbound_module_def)

text \<open>
  Claim C6.  When the reader fails with \<open>FileNotFoundError\<close> (archive not found),
  \<open>ValueError\<close> (corrupt archive, unsupported format) or \<open>RuntimeError\<close> (unexpected read
  error), both \<open>find_esps_in_archive\<close> and \<open>find_pak_sets_in_archive\<close> fail with the very
  same class and message; a failure of any other class is replaced by a \<open>RuntimeError\<close>
  whose message carries the name of the archive.  Of the classes that are passed on, the
  reader raises \<open>FileNotFoundError\<close> and \<open>ValueError\<close>; the other two classes that leave the
  reader, \<open>NameError\<close> and \<open>AttributeError\<close>, are replaced.  The witness has a corrupt
  archive, whose \<open>ValueError\<close> is passed on, a directory named \<open>dir.zip\<close>, for which the
  library raises an \<open>OSError\<close> and the reader an \<open>AttributeError\<close>, which is replaced, and a
  corrupt archive in an installation without \<open>rarfile\<close>, where the \<open>NameError\<close> of the
  reader is replaced.
\<close>

theorem classifier_error_propagation:
  assumes "get_archive_member_list env lib archive_path = Inl (cls, msg)"
  shows "(reraised cls \<longrightarrow>
            find_esps_in_archive env lib archive_path = Inl (cls, msg)
          \<and> find_pak_sets_in_archive env lib archive_path = Inl (cls, msg))
       \<and> (\<not> reraised cls \<longrightarrow>
            find_esps_in_archive env lib archive_path =
              Inl (RuntimeError,
                   ''Error searching ESPs in '' @ quoted (archive_name archive_path) @ '': '' @ msg)
          \<and> find_pak_sets_in_archive env lib archive_path =
              Inl (RuntimeError,
                   ''Error searching Pak sets in '' @ quoted (archive_name archive_path)
                     @ '': '' @ msg))
       \<and> (reraised cls \<longleftrightarrow> cls \<in> {FileNotFoundError, ValueError})
       \<and> (\<not> reraised cls \<longleftrightarrow> cls \<in> {NameError, AttributeError})"
proof -
  from assms have "cls \<in> {FileNotFoundError, ValueError, NameError, AttributeError}"
    by (rule reader_error_classes)
  then have classes: "(reraised cls \<longleftrightarrow> cls \<in> {FileNotFoundError, ValueError})
       \<and> (\<not> reraised cls \<longleftrightarrow> cls \<in> {NameError, AttributeError})"
    by (auto simp: reraised_def)
  from assms have "(reraised cls \<longrightarrow>
            find_esps_in_archive env lib archive_path = Inl (cls, msg)
          \<and> find_pak_sets_in_archive env lib archive_path = Inl (cls, msg))
       \<and> (\<not> reraised cls \<longrightarrow>
            find_esps_in_archive env lib archive_path =
              Inl (RuntimeError,
                   ''Error searching ESPs in '' @ quoted (archive_name archive_path) @ '': '' @ msg)
          \<and> find_pak_sets_in_archive env lib archive_path =
              Inl (RuntimeError,
                   ''Error searching Pak sets in '' @ quoted (archive_name archive_path)
                     @ '': '' @ msg))"
    by (simp add: find_esps_in_archive_def find_pak_sets_in_archive_def)
  with classes show ?thesis by blast
qed

theorem classifier_error_propagation_witness:
  "get_archive_member_list \<lparr>RAR_SUPPORT = True, SEVENZIP_SUPPORT = True\<rparr>
       (\<lambda>fmt p. Inl (BadZipFile, ''File is not a zip file'')) ''mods/broken.zip''
     = Inl (ValueError, ''Error reading '' @ quoted ''broken.zip'' @ '': File is not a zip file'')
   \<and> reraised ValueError
   \<and> find_esps_in_archive \<lparr>RAR_SUPPORT = True, SEVENZIP_SUPPORT = True\<rparr>
       (\<lambda>fmt p. Inl (BadZipFile, ''File is not a zip file'')) ''mods/broken.zip''
     = Inl (ValueError, ''Error reading '' @ quoted ''broken.zip'' @ '': File is not a zip file'')
   \<and> find_pak_sets_in_archive \<lparr>RAR_SUPPORT = True, SEVENZIP_SUPPORT = True\<rparr>
       (\<lambda>fmt p. Inl (BadZipFile, ''File is not a zip file'')) ''mods/broken.zip''
     = Inl (ValueError, ''Error reading '' @ quoted ''broken.zip'' @ '': File is not a zip file'')
   \<and> get_archive_member_list \<lparr>RAR_SUPPORT = True, SEVENZIP_SUPPORT = True\<rparr>
       (\<lambda>fmt p. Inl (OtherException, ''[Errno 21] Is a directory: '' @ quoted ''dir.zip''))
       ''dir.zip''
     = Inl (AttributeError,
            ''module '' @ quoted ''rarfile'' @ '' has no attribute '' @ quoted ''UnrarNotFound'')
   \<and> \<not> reraised AttributeError
   \<and> find_esps_in_archive \<lparr>RAR_SUPPORT = True, SEVENZIP_SUPPORT = True\<rparr>
       (\<lambda>fmt p. Inl (OtherException, ''[Errno 21] Is a directory: '' @ quoted ''dir.zip''))
       ''dir.zip''
     = Inl (RuntimeError, ''Error searching ESPs in '' @ quoted ''dir.zip''
              @ '': module '' @ quoted ''rarfile'' @ '' has no attribute ''
              @ quoted ''UnrarNotFound'')
   \<and> find_pak_sets_in_archive \<lparr>RAR_SUPPORT = True, SEVENZIP_SUPPORT = True\<rparr>
       (\<lambda>fmt p. Inl (OtherException, ''[Errno 21] Is a directory: '' @ quoted ''dir.zip''))
       ''dir.zip''
     = Inl (RuntimeError, ''Error searching Pak sets in '' @ quoted ''dir.zip''
              @ '': module '' @ quoted ''rarfile'' @ '' has no attribute ''
              @ quoted ''UnrarNotFound'')
   \<and> get_archive_member_list \<lparr>RAR_SUPPORT = False, SEVENZIP_SUPPORT = True\<rparr>
       (\<lambda>fmt p. Inl (BadZipFile, ''File is not a zip file'')) ''mods/broken.zip''
     = Inl (NameError, ''name '' @ quoted ''rarfile'' @ '' is not defined'')
   \<and> \<not> reraised NameError
   \<and> find_esps_in_archive \<lparr>RAR_SUPPORT = False, SEVENZIP_SUPPORT = True\<rparr>
       (\<lambda>fmt p. Inl (BadZipFile, ''File is not a zip file'')) ''mods/broken.zip''
     = Inl (RuntimeError, ''Error searching ESPs in '' @ quoted ''broken.zip''
              @ '': name '' @ quoted ''rarfile'' @ '' is not defined'')
   \<and> find_pak_sets_in_archive \<lparr>RAR_SUPPORT = False, SEVENZIP_SUPPORT = True\<rparr>
       (\<lambda>fmt p. Inl (BadZipFile, ''File is not a zip file'')) ''mods/broken.zip''
     = Inl (RuntimeError, ''Error searching Pak sets in '' @ quoted ''broken.zip''
              @ '': name '' @ quoted ''rarfile'' @ '' is not defined'')"
proof -
  let ?lib = "\<lambda>(fmt :: archive_format) (p :: string).
      (Inl (BadZipFile, ''File is not a zip file'') :: exc + member list)"
  let ?dir = "\<lambda>(fmt :: archive_format) (p :: string).
      (Inl (OtherException, ''[Errno 21] Is a directory: '' @ quoted ''dir.zip'')
         :: exc + member list)"
  have name: "archive_name ''mods/broken.zip'' = ''broken.zip''"
    by (simp add: archive_name_def Path_def splitroot_def path_name_def)
  have name': "archive_name ''dir.zip'' = ''dir.zip''"
    by (simp add: archive_name_def Path_def splitroot_def path_name_def)
  have h1: "get_archive_member_list \<lparr>RAR_SUPPORT = True, SEVENZIP_SUPPORT = True\<rparr> ?lib
       ''mods/broken.zip''
     = Inl (ValueError, ''Error reading '' @ quoted ''broken.zip'' @ '': File is not a zip file'')"
    by (simp add: get_archive_member_list_def read_body_def path_suffix_def Path_def
        splitroot_def path_name_def rfind_def lower_def lower_char_def read_handlers_def
        unbound_module_def archive_name_def)
  have h2: "get_archive_member_list \<lparr>RAR_SUPPORT = False, SEVENZIP_SUPPORT = True\<rparr> ?lib
       ''mods/broken.zip''
     = Inl (NameError, ''name '' @ quoted ''rarfile'' @ '' is not defined'')"
    by (simp add: get_archive_member_list_def read_body_def path_suffix_def Path_def
        splitroot_def path_name_def rfind_def lower_def lower_char_def read_handlers_def
        unbound_module_def archive_name_def)
  have h3: "get_archive_member_list \<lparr>RAR_SUPPORT = True, SEVENZIP_SUPPORT = True\<rparr> ?dir
       ''dir.zip''
     = Inl (AttributeError,
            ''module '' @ quoted ''rarfile'' @ '' has no attribute '' @ quoted ''UnrarNotFound'')"
    by (simp add: get_archive_member_list_def read_body_def path_suffix_def Path_def
        splitroot_def path_name_def rfind_def lower_def lower_char_def read_handlers_def
        unbound_module_def missing_attribute_def)
  have r1: "reraised ValueError" and r2: "\<not> reraised NameError"
    and r3: "\<not> reraised AttributeError"
    by (simp_all add: reraised_def)
  from classifier_error_propagation [OF h1] r1 name
  have a: "find_esps_in_archive \<lparr>RAR_SUPPORT = True, SEVENZIP_SUPPORT = True\<rparr> ?lib
         ''mods/broken.zip''
       = Inl (ValueError, ''Error reading '' @ quoted ''broken.zip'' @ '': File is not a zip file'')
     \<and> find_pak_sets_in_archive \<lparr>RAR_SUPPORT = True, SEVENZIP_SUPPORT = True\<rparr> ?lib
         ''mods/broken.zip''
       = Inl (ValueError, ''Error reading '' @ quoted ''broken.zip'' @ '': File is not a zip file'')"
    by blast
  from classifier_error_propagation [OF h3] r3 name'
  have b: "find_esps_in_archive \<lparr>RAR_SUPPORT = True, SEVENZIP_SUPPORT = True\<rparr> ?dir ''dir.zip''
       = Inl (RuntimeError, ''Error searching ESPs in '' @ quoted ''dir.zip''
              @ '': module '' @ quoted ''rarfile'' @ '' has no attribute ''
              @ quoted ''UnrarNotFound'')
     \<and> find_pak_sets_in_archive \<lparr>RAR_SUPPORT = True, SEVENZIP_SUPPORT = True\<rparr> ?dir ''dir.zip''
       = Inl (RuntimeError, ''Error searching Pak sets in '' @ quoted ''dir.zip''
              @ '': module '' @ quoted ''rarfile'' @ '' has no attribute ''
              @ quoted ''UnrarNotFound'')"
    by simp
  from classifier_error_propagation [OF h2] r2 name
  have c: "find_esps_in_archive \<lparr>RAR_SUPPORT = False, SEVENZIP_SUPPORT = True\<rparr> ?lib
         ''mods/broken.zip''
       = Inl (RuntimeError, ''Error searching ESPs in '' @ quoted ''broken.zip''
              @ '': name '' @ quoted ''rarfile'' @ '' is not defined'')
     \<and> find_pak_sets_in_archive \<lparr>RAR_SUPPORT = False, SEVENZIP_SUPPORT = True\<rparr> ?lib
         ''mods/broken.zip''
       = Inl (RuntimeError, ''Error searching Pak sets in '' @ quoted ''broken.zip''
              @ '': name '' @ quoted ''rarfile'' @ '' is not defined'')"
    by simp
  from h1 r1 a h3 r3 b h2 r2 c show ?thesis by blast
qed

section \<open>Unsupported and unavailable formats\<close>

text \<open>
  With both optional libraries installed, an archive path whose suffix is none of
  \<open>.zip\<close>, \<open>.rar\<close>, \<open>.7z\<close> makes the reader raise \<open>ValueError\<close>, and no library is called:
  the result does not depend on \<open>lib\<close>.
\<close>

lemma unsupported_with_all_libraries:
  assumes "RAR_SUPPORT env" "SEVENZIP_SUPPORT env"
    and "lower (path_suffix (Path archive_path)) \<notin> {''.zip'', ''.rar'', ''.7z''}"
  shows "get_archive_member_list env lib archive_path =
     Inl (ValueError, ''Error reading '' @ quoted (archive_name archive_path)
            @ '': Unsupported/unavailable type: '' @ lower (path_suffix (Path archive_path)))"
  using assms
  by (simp add: get_archive_member_list_def read_body_def read_handlers_def unbound_module_def)

text \<open>
  Claim C7 says that every archive path whose extension is not a recognized, available
  format makes the reader raise the unsupported-format error, a \<open>ValueError\<close>.  The source
  raises that \<open>ValueError\<close> inside its \<open>try\<close> block and then evaluates the tuple of its second
  \<open>except\<close> clause, which names \<open>rarfile.BadRarFile\<close> and \<open>py7zr.exceptions.Bad7zFile\<close>.
  When \<open>rarfile\<close> was not importable (the case \<open>RAR_SUPPORT = False\<close>, for which the
  module prints a warning and goes on), that evaluation raises \<open>NameError\<close>, and this is
  what leaves the reader, for \<open>mod.tar\<close> as for \<open>mod.rar\<close>.
\<close>

theorem unsupported_format_without_rarfile:
  "get_archive_member_list \<lparr>RAR_SUPPORT = False, SEVENZIP_SUPPORT = True\<rparr> lib ''mod.tar''
     = Inl (NameError, ''name '' @ quoted ''rarfile'' @ '' is not defined'')
   \<and> get_archive_member_list \<lparr>RAR_SUPPORT = False, SEVENZIP_SUPPORT = True\<rparr> lib ''mod.rar''
     = Inl (NameError, ''name '' @ quoted ''rarfile'' @ '' is not defined'')"
  by (simp add: get_archive_member_list_def read_body_def path_suffix_def Path_def
        splitroot_def path_name_def rfind_def lower_def lower_char_def read_handlers_def
        unbound_module_def archive_name_def)

section \<open>What the grouping loop computes\<close>


















section \<open>The grouping key ignores case\<close>

lemma lower_char_slash [simp]: "(lower_char c = CHR ''/'') = (c = CHR ''/'')"
  by (auto simp: lower_char_def)

lemma lower_char_dot [simp]: "(lower_char c = CHR ''.'') = (c = CHR ''.'')"
  by (auto simp: lower_char_def)

lemma lower_char_idem [simp]: "lower_char (lower_char c) = lower_char c"
  by (auto simp: lower_char_def)

lemma slash_lower_char [simp]: "(CHR ''/'' = lower_char c) = (c = CHR ''/'')"
  by (auto simp: lower_char_def)

lemma dot_lower_char [simp]: "(CHR ''.'' = lower_char c) = (c = CHR ''.'')"
  by (auto simp: lower_char_def)

lemma lower_char_fixes [simp]: "lower_char CHR ''/'' = CHR ''/''" "lower_char CHR ''.'' = CHR ''.''"
  by (simp_all add: lower_char_def)

lemma length_lower [simp]: "length (lower s) = length s"
  by (simp add: lower_def)


lemma lower_Nil [simp]: "lower [] = []"
  by (simp add: lower_def)

lemma lower_idem [simp]: "lower (lower s) = lower s"
  by (simp add: lower_def)

lemma lower_Nil_iff [simp]: "(lower s = []) = (s = [])"
  by (simp add: lower_def)

lemma lower_eq_slash [simp]: "(lower s = ''/'') = (s = ''/'')"
  by (cases s) (auto simp: lower_def)

lemma lower_eq_dot [simp]: "(lower s = ''.'') = (s = ''.'')"
  by (cases s) (auto simp: lower_def)



lemma lower_drop: "lower (drop n s) = drop n (lower s)"
  by (simp add: lower_def drop_map)








lemma path_name_lower: "path_name (r, map lower t) = lower (path_name (r, t))"
  by (simp add: path_name_def last_map)

lemma rfind_lower: "rfind CHR ''.'' (lower s) = rfind CHR ''.'' s"
proof -
  have "length (takeWhile (\<lambda>x. x \<noteq> CHR ''.'') (map lower_char xs))
      = length (takeWhile (\<lambda>x. x \<noteq> CHR ''.'') xs)" for xs
    by (induction xs) auto
  from this [of "rev s"] show ?thesis
    by (auto simp: rfind_def lower_def rev_map)
qed


lemma path_suffix_lower: "path_suffix (r, map lower t) = lower (path_suffix (r, t))"
  by (simp add: path_suffix_def Let_def path_name_lower rfind_lower lower_drop
      split: option.splits)








section \<open>Package grouping: the completed units\<close>














text \<open>
  The key is lower-cased as \<open>str.lower\<close> does it, so the capital letters of Latin-1 are
  case variants as well: \<open>0xD6\<close> is the capital of \<open>0xF6\<close> (O and o with diaeresis), and
  the three entries below form one unit.
\<close>

lemma latin1_case_variants_grouped:
  "base_key_of ([CHR 0xD6] @ ''.pak'') = [CHR 0xF6]
   \<and> find_pak_sets [([CHR 0xD6] @ ''.pak'', False), ([CHR 0xF6] @ ''.ucas'', False),
                     ([CHR 0xF6] @ ''.utoc'', False)]
     = [\<lparr>pak = Some ([CHR 0xD6] @ ''.pak''), ucas = Some ([CHR 0xF6] @ ''.ucas''),
          utoc = Some ([CHR 0xF6] @ ''.utoc'')\<rparr>]"
  by code_simp

section \<open>Package grouping and the order of the archive\<close>










text \<open>
  Two entries that differ in the case of a Latin-1 letter are rivals: among the four entries
  below, the second and the third share key and extension, and the unit holds the one that
  comes later.
\<close>

lemma latin1_rivals:
  "\<not> no_rival_members [([CHR 0xD6] @ ''.pak'', False), ([CHR 0xD6] @ ''.ucas'', False),
                          ([CHR 0xF6] @ ''.ucas'', False), ([CHR 0xD6] @ ''.utoc'', False)]
   \<and> find_pak_sets [([CHR 0xD6] @ ''.pak'', False), ([CHR 0xD6] @ ''.ucas'', False),
                     ([CHR 0xF6] @ ''.ucas'', False), ([CHR 0xD6] @ ''.utoc'', False)]
     = [\<lparr>pak = Some ([CHR 0xD6] @ ''.pak''), ucas = Some ([CHR 0xF6] @ ''.ucas''),
          utoc = Some ([CHR 0xD6] @ ''.utoc'')\<rparr>]
   \<and> find_pak_sets [([CHR 0xD6] @ ''.pak'', False), ([CHR 0xF6] @ ''.ucas'', False),
                     ([CHR 0xD6] @ ''.ucas'', False), ([CHR 0xD6] @ ''.utoc'', False)]
     = [\<lparr>pak = Some ([CHR 0xD6] @ ''.pak''), ucas = Some ([CHR 0xD6] @ ''.ucas''),
          utoc = Some ([CHR 0xD6] @ ''.utoc'')\<rparr>]"
  by code_simp




section \<open>Extraction returns one destination for each requested entry\<close>

lemma extract_loop_completes:
  "list_all (\<lambda>member. extract member = None) files \<Longrightarrow>
     extract_loop extract target_dir files acc
       = Inr (acc @ map (\<lambda>member. path_div (Path target_dir) member) files)"
  by (induction files arbitrary: acc) simp_all

lemma extract_body_completes:
  assumes "extraction_completes env w archive_path files target_dir"
  shows "extract_body env w archive_path files target_dir
       = Inr (map (\<lambda>member. path_div (Path target_dir) member) files)"
proof -
  from assms obtain fmt where fmt: "chosen_format env archive_path = Some fmt"
    and opened: "open_archive w fmt archive_path = None"
    and closed: "close_archive w fmt archive_path = None"
    and calls: "if fmt = SevenZip
             then extract_targets w archive_path target_dir files = None
             else list_all (\<lambda>member. extract_member w fmt archive_path member target_dir = None) files"
    by (auto simp: extraction_completes_def split: option.splits)
  show ?thesis
  proof (cases fmt)
    case Zip
    with fmt opened closed calls show ?thesis
      by (simp add: extract_body_def chosen_format_def with_archive_def Let_def
          extract_loop_completes split: if_splits)
  next
    case Rar
    with fmt opened closed calls show ?thesis
      by (simp add: extract_body_def chosen_format_def with_archive_def Let_def
          extract_loop_completes split: if_splits)
  next
    case SevenZip
    with fmt opened closed calls show ?thesis
      by (simp add: extract_body_def chosen_format_def with_archive_def Let_def
          split: if_splits)
  qed
qed

text \<open>
  Claim C8.  When the target directory can be ensured and the extraction of the archive's
  format runs without raising (the format is supported, the archive opens, every call of
  \<open>extract\<close> returns, the archive closes), \<open>_extract_files_from_archive\<close> does not raise:
  it returns the list of the destinations, the target directory joined with each requested
  entry, one for each requested entry and in the order of the request, whichever of them
  exist afterwards.  A destination that does not exist only adds the line
  \<open>WARNING: Extracted file missing: ...\<close> to the output.
\<close>

theorem extract_files_from_archive_result:
  assumes "ensure_directory_exists w target_dir"
    and "extraction_completes env w archive_path files_to_extract target_dir"
  shows "extract_files_from_archive env w archive_path files_to_extract target_dir
       = (Inr (map (destination target_dir) files_to_extract),
          map missing_warning
            (filter (\<lambda>p. \<not> path_exists w p) (map (destination target_dir) files_to_extract)))
     \<and> length (map (destination target_dir) files_to_extract) = length files_to_extract"
  using assms
  by (simp add: extract_files_from_archive_def extract_body_completes missing_warnings_def
      destination_def missing_warning_def comp_def filter_map)

theorem extract_files_from_archive_result_witness:
  "ensure_directory_exists
     \<lparr>ensure_directory_exists = (\<lambda>d. True), open_archive = (\<lambda>fmt a. None),
      extract_member = (\<lambda>fmt a m d. None), extract_targets = (\<lambda>a d ms. None),
      close_archive = (\<lambda>fmt a. None), path_exists = (\<lambda>p. p = ''tmp/ModName/Plugin.esp'')\<rparr>
     ''tmp''
   \<and> extraction_completes \<lparr>RAR_SUPPORT = True, SEVENZIP_SUPPORT = True\<rparr>
     \<lparr>ensure_directory_exists = (\<lambda>d. True), open_archive = (\<lambda>fmt a. None),
      extract_member = (\<lambda>fmt a m d. None), extract_targets = (\<lambda>a d ms. None),
      close_archive = (\<lambda>fmt a. None), path_exists = (\<lambda>p. p = ''tmp/ModName/Plugin.esp'')\<rparr>
     ''mod.zip'' [''ModName/Plugin.esp'', ''ModName/readme.txt''] ''tmp''
   \<and> extract_files_from_archive \<lparr>RAR_SUPPORT = True, SEVENZIP_SUPPORT = True\<rparr>
     \<lparr>ensure_directory_exists = (\<lambda>d. True), open_archive = (\<lambda>fmt a. None),
      extract_member = (\<lambda>fmt a m d. None), extract_targets = (\<lambda>a d ms. None),
      close_archive = (\<lambda>fmt a. None), path_exists = (\<lambda>p. p = ''tmp/ModName/Plugin.esp'')\<rparr>
     ''mod.zip'' [''ModName/Plugin.esp'', ''ModName/readme.txt''] ''tmp''
     = (Inr [''tmp/ModName/Plugin.esp'', ''tmp/ModName/readme.txt''],
        [''WARNING: Extracted file missing: tmp/ModName/readme.txt''])"
proof -
  let ?env = "\<lparr>RAR_SUPPORT = True, SEVENZIP_SUPPORT = True\<rparr>"
  let ?w = "\<lparr>ensure_directory_exists = (\<lambda>d :: string. True),
      open_archive = (\<lambda>(fmt :: archive_format) (a :: string). (None :: exc option)),
      extract_member = (\<lambda>(fmt :: archive_format) (a :: string) (m :: string) (d :: string).
                          (None :: exc option)),
      extract_targets = (\<lambda>(a :: string) (d :: string) (ms :: string list). (None :: exc option)),
      close_archive = (\<lambda>(fmt :: archive_format) (a :: string). (None :: exc option)),
      path_exists = (\<lambda>p. p = ''tmp/ModName/Plugin.esp'')\<rparr>"
  let ?files = "[''ModName/Plugin.esp'', ''ModName/readme.txt'']"
  have h1: "ensure_directory_exists ?w ''tmp''" by simp
  have h2: "extraction_completes ?env ?w ''mod.zip'' ?files ''tmp''"
    by (simp add: extraction_completes_def chosen_format_def path_suffix_def Path_def
        splitroot_def path_name_def rfind_def lower_def lower_char_def)
  have d1: "destination ''tmp'' ''ModName/Plugin.esp'' = ''tmp/ModName/Plugin.esp''"
    by (simp add: destination_def path_div_def posix_join_def str_of_path_def Path_def
        splitroot_def startswith_def endswith_def suffix_to_prefix)
  have d2: "destination ''tmp'' ''ModName/readme.txt'' = ''tmp/ModName/readme.txt''"
    by (simp add: destination_def path_div_def posix_join_def str_of_path_def Path_def
        splitroot_def startswith_def endswith_def suffix_to_prefix)
  from extract_files_from_archive_result [OF h1 h2]
  have "extract_files_from_archive ?env ?w ''mod.zip'' ?files ''tmp''
     = (Inr [''tmp/ModName/Plugin.esp'', ''tmp/ModName/readme.txt''],
        [''WARNING: Extracted file missing: tmp/ModName/readme.txt''])"
    by (simp add: d1 d2 missing_warning_def)
  with h1 h2 show ?thesis by blast
qed

section \<open>Writing the load-order file and reading it back\<close>

lemma write_loop_text:
  "fst (write_loop pf fault n ps acc) \<Longrightarrow>
     snd (write_loop pf fault n ps acc)
       = acc @ concat (map (\<lambda>p. translate_newlines pf (p @ [CHR 0x0A]))
                        (filter (\<lambda>p. p \<noteq> []) ps))"
  by (induction ps arbitrary: n acc) (auto split: if_splits)

lemma translate_plain:
  "CHR 0x0A \<notin> set p \<Longrightarrow> translate_newlines pf p = p"
  by (induction p) (auto simp: translate_newlines_def)

lemma translate_append:
  "translate_newlines pf (a @ b) = translate_newlines pf a @ translate_newlines pf b"
  by (simp add: translate_newlines_def)

lemma translate_line:
  "CHR 0x0A \<notin> set p \<Longrightarrow> translate_newlines pf (p @ [CHR 0x0A]) = p @ linesep pf"
  by (simp add: translate_append translate_plain) (simp add: translate_newlines_def)

lemma universal_plain:
  "CHR 0x0D \<notin> set p \<Longrightarrow> CHR 0x0A \<notin> set p \<Longrightarrow>
     universal_newlines False (p @ rest) = p @ universal_newlines False rest"
  by (induction p) auto

lemma universal_linesep:
  "universal_newlines False (linesep pf @ rest) = CHR 0x0A # universal_newlines False rest"
  by (cases pf) (simp_all add: linesep_def)

lemma universal_written:
  "list_all no_line_break ps \<Longrightarrow>
     universal_newlines False (concat (map (\<lambda>p. p @ linesep pf) ps))
       = concat (map (\<lambda>p. p @ [CHR 0x0A]) ps)"
  by (induction ps) (simp_all add: no_line_break_def universal_plain universal_linesep)

lemma file_lines_line:
  "CHR 0x0A \<notin> set p \<Longrightarrow> file_lines (p @ CHR 0x0A # rest) = (p @ [CHR 0x0A]) # file_lines rest"
  by (induction p) auto

lemma file_lines_written:
  "list_all no_line_break ps \<Longrightarrow>
     file_lines (concat (map (\<lambda>p. p @ [CHR 0x0A]) ps)) = map (\<lambda>p. p @ [CHR 0x0A]) ps"
  by (induction ps) (simp_all add: no_line_break_def file_lines_line)

lemma dropWhile_same_length:
  assumes "length (dropWhile P xs) = length xs"
  shows "dropWhile P xs = xs"
proof (cases xs)
  case Nil
  then show ?thesis by simp
next
  case (Cons x ys)
  have "length (dropWhile P ys) \<le> length ys" by (rule length_dropWhile_le)
  with assms Cons have "\<not> P x" by (auto split: if_splits)
  with Cons show ?thesis by simp
qed

lemma strip_fixed:
  assumes "strip p = p" and "p \<noteq> []"
  shows "\<not> is_space (hd p) \<and> \<not> is_space (last p)"
proof -
  let ?q = "dropWhile is_space p"
  from assms(1) have "length (strip p) = length p" by simp
  then have "length p = length (dropWhile is_space (rev ?q))"
    by (simp add: strip_def)
  also have "\<dots> \<le> length (rev ?q)" by (rule length_dropWhile_le)
  finally have le: "length p \<le> length ?q" by simp
  have "length ?q \<le> length p" by (rule length_dropWhile_le)
  with le have "length ?q = length p" by simp
  then have q: "?q = p" by (rule dropWhile_same_length)
  with assms(1) have "rev (dropWhile is_space (rev p)) = p" by (simp add: strip_def)
  then have "dropWhile is_space (rev p) = rev p" by (metis rev_rev_ident)
  with q assms(2) show ?thesis
    by (simp add: dropWhile_eq_self_iff hd_rev)
qed

lemma strip_line:
  assumes "strip p = p" and "p \<noteq> []"
  shows "strip (p @ [CHR 0x0A]) = p"
proof -
  from strip_fixed [OF assms] have h: "\<not> is_space (hd p)" and l: "\<not> is_space (last p)"
    by simp_all
  from h assms(2) have "dropWhile is_space (p @ [CHR 0x0A]) = p @ [CHR 0x0A]"
    by (simp add: dropWhile_eq_self_iff)
  moreover have "is_space CHR 0x0A" by (simp add: is_space_def)
  moreover from l assms(2) have "dropWhile is_space (rev p) = rev p"
    by (simp add: dropWhile_eq_self_iff hd_rev)
  ultimately show ?thesis by (simp add: strip_def)
qed

lemma read_back:
  assumes "list_all entry_as_claimed ps"
  shows "map strip (filter (\<lambda>ln. strip ln \<noteq> [] \<and> \<not> startswith (strip ln) ''#'')
                      (map (\<lambda>p. p @ [CHR 0x0A]) ps)) = ps"
  using assms
  by (induction ps) (simp_all add: entry_as_claimed_def strip_line)

lemma read_kept:
  "read_plugins_file w = Inr qs \<Longrightarrow> list_all kept_entry qs"
  by (auto simp: read_plugins_file_def kept_entry_def list_all_iff
      split: option.splits)

text \<open>
  Claim C9, as the specification states it: a list of strings each of which is non-empty,
  equal to its stripped form and does not begin with \<open>#\<close> is read back as it was written.
  The statement fails for an entry that holds a line feed, such as the single entry
  \<open>a.esp\<close>, line feed, \<open>b.esp\<close>: \<open>strip\<close> removes white space only at the two ends, so the
  entry is equal to its stripped form; it is written as two lines and read back as the two
  entries \<open>a.esp\<close> and \<open>b.esp\<close>.  Nothing fails in the file system of this example.
\<close>

theorem plugins_file_round_trip_counterexample:
  "entry_as_claimed (''a.esp'' @ [CHR 0x0A] @ ''b.esp'')
   \<and> write_plugins_file
        \<lparr>os_platform = Posix, plugins_txt = None, read_fault = None, directory_ensured = True,
         open_fault = None, write_fault = None\<rparr>
        [''a.esp'' @ [CHR 0x0A] @ ''b.esp'']
     = (True,
        \<lparr>os_platform = Posix, plugins_txt = Some (''a.esp'' @ [CHR 0x0A] @ ''b.esp'' @ [CHR 0x0A]),
         read_fault = None, directory_ensured = True, open_fault = None, write_fault = None\<rparr>)
   \<and> read_plugins_file
        \<lparr>os_platform = Posix, plugins_txt = Some (''a.esp'' @ [CHR 0x0A] @ ''b.esp'' @ [CHR 0x0A]),
         read_fault = None, directory_ensured = True, open_fault = None, write_fault = None\<rparr>
     = Inr [''a.esp'', ''b.esp'']
   \<and> read_plugins_file
        \<lparr>os_platform = Posix, plugins_txt = Some (''a.esp'' @ [CHR 0x0A] @ ''b.esp'' @ [CHR 0x0A]),
         read_fault = None, directory_ensured = True, open_fault = None, write_fault = None\<rparr>
     \<noteq> Inr [''a.esp'' @ [CHR 0x0A] @ ''b.esp'']"
  by (simp add: entry_as_claimed_def strip_def is_space_def startswith_def
      write_plugins_file_def write_raises_def translate_newlines_def linesep_def
      read_plugins_file_def)

text \<open>
  Claim C9, amended: a list of strings each of which is non-empty, equal to its stripped
  form, does not begin with \<open>#\<close> and holds neither a line feed nor a carriage return is
  read back as it was written, on either platform, whenever \<open>write_plugins_file\<close> returns
  \<open>True\<close> and reading the file raises no exception.  And every entry that
  \<open>read_plugins_file\<close> returns, for whatever file, is non-empty and does not begin with
  \<open>#\<close>: empty lines and lines whose stripped form begins with \<open>#\<close> are dropped.
\<close>

theorem plugins_file_round_trip:
  assumes claimed: "list_all entry_as_claimed plugins_list"
    and plain: "list_all no_line_break plugins_list"
    and written: "write_plugins_file w plugins_list = (True, w')"
    and readable: "read_fault w = None"
  shows "read_plugins_file w' = Inr plugins_list
       \<and> (\<forall>w0 qs. read_plugins_file w0 = Inr qs \<longrightarrow> list_all kept_entry qs)"
proof -
  let ?pf = "os_platform w"
  obtain content where loop: "write_loop ?pf (write_fault w) 0 plugins_list [] = (True, content)"
    and w': "w' = w\<lparr>plugins_txt := Some content\<rparr>"
    using written
    by (auto simp: write_plugins_file_def split: if_splits option.splits prod.splits)
  from claimed have nonempty: "filter (\<lambda>p. p \<noteq> []) plugins_list = plugins_list"
    by (simp add: list_all_iff entry_as_claimed_def)
  have "content = concat (map (\<lambda>p. translate_newlines ?pf (p @ [CHR 0x0A])) plugins_list)"
    using write_loop_text [of ?pf "write_fault w" 0 plugins_list "[]"] loop nonempty by simp
  also have "\<dots> = concat (map (\<lambda>p. p @ linesep ?pf) plugins_list)"
    using plain
    by (intro arg_cong [where f = concat] map_cong refl)
       (simp add: list_all_iff no_line_break_def translate_line)
  finally have written_as: "content = concat (map (\<lambda>p. p @ linesep ?pf) plugins_list)" .
  have "file_lines (universal_newlines False content) = map (\<lambda>p. p @ [CHR 0x0A]) plugins_list"
    by (simp add: written_as universal_written [OF plain] file_lines_written [OF plain])
  then have c1: "read_plugins_file w' = Inr plugins_list"
    using readable by (simp add: read_plugins_file_def w' read_back [OF claimed])
  have c2: "\<forall>w0 qs. read_plugins_file w0 = Inr qs \<longrightarrow> list_all kept_entry qs"
    by (intro allI impI) (rule read_kept)
  show ?thesis by (rule conjI [OF c1 c2])
qed

theorem plugins_file_round_trip_witness:
  "list_all entry_as_claimed [''Oblivion.esm'', ''My Mod.esp'']
   \<and> list_all no_line_break [''Oblivion.esm'', ''My Mod.esp'']
   \<and> write_plugins_file
        \<lparr>os_platform = Windows, plugins_txt = Some ''# old'', read_fault = None,
         directory_ensured = True, open_fault = None, write_fault = None\<rparr>
        [''Oblivion.esm'', ''My Mod.esp'']
     = (True,
        \<lparr>os_platform = Windows,
         plugins_txt = Some (''Oblivion.esm'' @ [CHR 0x0D, CHR 0x0A] @ ''My Mod.esp''
                               @ [CHR 0x0D, CHR 0x0A]),
         read_fault = None, directory_ensured = True, open_fault = None, write_fault = None\<rparr>)
   \<and> read_plugins_file
        \<lparr>os_platform = Windows,
         plugins_txt = Some (''Oblivion.esm'' @ [CHR 0x0D, CHR 0x0A] @ ''My Mod.esp''
                               @ [CHR 0x0D, CHR 0x0A]),
         read_fault = None, directory_ensured = True, open_fault = None, write_fault = None\<rparr>
     = Inr [''Oblivion.esm'', ''My Mod.esp'']"
proof -
  let ?w = "\<lparr>os_platform = Windows, plugins_txt = Some ''# old'', read_fault = None,
         directory_ensured = True, open_fault = None, write_fault = None\<rparr>"
  let ?w' = "\<lparr>os_platform = Windows,
         plugins_txt = Some (''Oblivion.esm'' @ [CHR 0x0D, CHR 0x0A] @ ''My Mod.esp''
                               @ [CHR 0x0D, CHR 0x0A]),
         read_fault = None, directory_ensured = True, open_fault = None, write_fault = None\<rparr>"
  let ?ps = "[''Oblivion.esm'', ''My Mod.esp'']"
  have h1: "list_all entry_as_claimed ?ps"
    by (simp add: entry_as_claimed_def strip_def is_space_def startswith_def)
  have h2: "list_all no_line_break ?ps"
    by (simp add: no_line_break_def)
  have h3: "write_plugins_file ?w ?ps = (True, ?w')"
    by (simp add: write_plugins_file_def write_raises_def translate_newlines_def linesep_def)
  have h4: "read_fault ?w = None" by simp
  have "read_plugins_file ?w' = Inr ?ps"
    using plugins_file_round_trip [OF h1 h2 h3 h4] by (rule conjunct1)
  with h1 h2 h3 show ?thesis by blast
qed

section \<open>Reordering keeps every plugin\<close>

lemma foldl_section_step:
  "foldl section_step (d, c) ps = (d @ default_entries ps, c @ custom_entries ps)"
  by (induction ps arbitrary: d c)
     (simp_all add: section_step_def default_entries_def custom_entries_def is_default_def)

lemma sections_mset: "mset (default_entries ps) + mset (custom_entries ps) = mset ps"
  by (induction ps) (simp_all add: default_entries_def custom_entries_def)

lemma permutation_indices:
  assumes "permutation_of_1_to n numbers"
  shows "mset (map (\<lambda>k. nat (k - 1)) numbers) = mset [0..<n]"
proof -
  let ?js = "map (\<lambda>k. nat (k - 1)) numbers"
  from assms have len: "length numbers = n"
    and range: "\<forall>k\<in>set numbers. 1 \<le> k \<and> k \<le> int n"
    and dist: "distinct numbers"
    by (simp_all add: permutation_of_1_to_def list_all_iff)
  have "inj_on (\<lambda>k. nat (k - 1)) (set numbers)"
  proof (rule inj_onI)
    fix x y assume "x \<in> set numbers" "y \<in> set numbers" "nat (x - 1) = nat (y - 1)"
    with range have "1 \<le> x" "1 \<le> y" "nat (x - 1) = nat (y - 1)" by auto
    then show "x = y" by arith
  qed
  with dist have d: "distinct ?js" by (simp add: distinct_map)
  have sub: "set ?js \<subseteq> {0..<n}"
  proof
    fix j assume "j \<in> set ?js"
    then obtain k where "k \<in> set numbers" "j = nat (k - 1)" by auto
    with range have "1 \<le> k" "k \<le> int n" "j = nat (k - 1)" by auto
    then have "j < n" by arith
    then show "j \<in> {0..<n}" by simp
  qed
  have "card (set ?js) = length ?js" using d by (rule distinct_card)
  with len have "card (set ?js) = n" by simp
  with sub have "set ?js = {0..<n}" by (simp add: card_subset_eq)
  then have same: "set ?js = set [0..<n]" by simp
  show ?thesis
    by (rule set_eq_iff_mset_eq_distinct [OF d distinct_upt, THEN iffD1, OF same])
qed

lemma reordered_mset:
  assumes "permutation_of_1_to (length cs) numbers"
  shows "mset (reordered cs numbers) = mset cs"
proof -
  have "reordered cs numbers = map (nth cs) (map (\<lambda>k. nat (k - 1)) numbers)"
    by (simp add: reordered_def comp_def)
  then have "mset (reordered cs numbers)
      = image_mset (nth cs) (mset (map (\<lambda>k. nat (k - 1)) numbers))"
    by (simp only: mset_map)
  also have "\<dots> = image_mset (nth cs) (mset [0..<length cs])"
    by (simp only: permutation_indices [OF assms])
  also have "\<dots> = mset (map (nth cs) [0..<length cs])"
    by (simp only: mset_map)
  also have "\<dots> = mset cs" by (simp only: map_nth)
  finally show ?thesis .
qed

lemma validation_iff:
  "(length strs = n
      \<and> list_all (\<lambda>idx. 0 \<le> idx \<and> idx < int n) (map (\<lambda>i. int_of_digits i - 1) strs)
      \<and> length (remdups (map (\<lambda>i. int_of_digits i - 1) strs)) = n)
   = permutation_of_1_to n (map int_of_digits strs)"
proof -
  have inj: "inj_on (\<lambda>i. int_of_digits i - 1) (set strs) = inj_on int_of_digits (set strs)"
    by (auto simp: inj_on_def)
  have "length (remdups (map (\<lambda>i. int_of_digits i - 1) strs)) = n
      \<longleftrightarrow> distinct (map int_of_digits strs)" if "length strs = n"
  proof -
    have "length (remdups (map (\<lambda>i. int_of_digits i - 1) strs)) = n
        \<longleftrightarrow> length (remdups (map (\<lambda>i. int_of_digits i - 1) strs))
            = length (map (\<lambda>i. int_of_digits i - 1) strs)"
      using that by simp
    also have "\<dots> \<longleftrightarrow> distinct (map (\<lambda>i. int_of_digits i - 1) strs)"
      by (simp only: length_remdups_eq remdups_id_iff_distinct)
    also have "\<dots> \<longleftrightarrow> distinct (map int_of_digits strs)"
      by (simp add: distinct_map inj)
    finally show ?thesis .
  qed
  moreover have "list_all (\<lambda>idx. 0 \<le> idx \<and> idx < int n) (map (\<lambda>i. int_of_digits i - 1) strs)
      \<longleftrightarrow> list_all (\<lambda>k. 1 \<le> k \<and> k \<le> int n) (map int_of_digits strs)"
    by (auto simp: list_all_iff)
  ultimately show ?thesis
    by (auto simp: permutation_of_1_to_def)
qed

lemma reorder_loop_step:
  "reorder_loop lim ds cs (line # rest) =
     (if strip line = [] then None
      else if findall_digits [] (strip line) = []
              \<or> list_ex (int_raises lim) (findall_digits [] (strip line))
              \<or> \<not> permutation_of_1_to (length cs) (entered_numbers line)
      then reorder_loop lim ds cs rest
      else (case rest of
              [] \<Rightarrow> None
            | answer # unread \<Rightarrow>
                if strip (lower answer) = ''y''
                then Some (ds @ reordered cs (entered_numbers line))
                else None))"
proof -
  let ?strs = "findall_digits [] (strip line)"
  have v: "(length ?strs = length cs
      \<and> list_all (\<lambda>idx. 0 \<le> idx \<and> idx < int (length cs)) (map (\<lambda>i. int_of_digits i - 1) ?strs)
      \<and> length (remdups (map (\<lambda>i. int_of_digits i - 1) ?strs)) = length cs)
     = permutation_of_1_to (length cs) (entered_numbers line)"
    unfolding entered_numbers_def by (rule validation_iff)
  have r: "map (\<lambda>i. cs ! nat i) (map (\<lambda>i. int_of_digits i - 1) ?strs)
      = reordered cs (entered_numbers line)"
    by (simp add: reordered_def entered_numbers_def comp_def)
  show ?thesis
  proof (cases "permutation_of_1_to (length cs) (entered_numbers line)")
    case True
    with v have "length ?strs = length cs"
      and "list_all (\<lambda>idx. 0 \<le> idx \<and> idx < int (length cs)) (map (\<lambda>i. int_of_digits i - 1) ?strs)"
      and "length (remdups (map (\<lambda>i. int_of_digits i - 1) ?strs)) = length cs"
      by simp_all
    with True r show ?thesis
      by (simp add: Let_def split: list.splits)
  next
    case False
    with v have "length ?strs \<noteq> length cs
      \<or> \<not> list_all (\<lambda>idx. 0 \<le> idx \<and> idx < int (length cs))
            (map (\<lambda>i. int_of_digits i - 1) ?strs)
      \<or> length (remdups (map (\<lambda>i. int_of_digits i - 1) ?strs)) \<noteq> length cs"
      by simp
    with False show ?thesis
      by (auto simp: Let_def)
  qed
qed

declare reorder_loop.simps(2) [simp del]

lemma reorder_loop_accepts:
  "reorder_loop lim ds cs console = Some final \<Longrightarrow> list_ex (accepted_for ds cs final) console"
proof (induction console)
  case Nil
  then show ?case by simp
next
  case (Cons line rest)
  show ?case
  proof (cases "reorder_loop lim ds cs (line # rest) = reorder_loop lim ds cs rest")
    case True
    with Cons show ?thesis by simp
  next
    case False
    then have "permutation_of_1_to (length cs) (entered_numbers line)"
      and "final = ds @ reordered cs (entered_numbers line)"
      using Cons.prems
      by (auto simp: reorder_loop_step split: if_splits list.splits)
    then show ?thesis by (simp add: accepted_for_def)
  qed
qed

lemma accepted_shape:
  assumes "list_ex (accepted_for ds cs final) console"
  shows "take (length ds) final = ds \<and> mset (drop (length ds) final) = mset cs"
  using assms by (auto simp: list_ex_iff accepted_for_def reordered_mset)

text \<open>
  Claim C10.  Let \<open>read_plugins_file\<close> yield the list \<open>all_plugins\<close>.  When
  \<open>process_load_order\<close> writes, it calls \<open>write_plugins_file\<close> with a list that begins with
  the default entries of \<open>all_plugins\<close> in their order and goes on with a permutation of
  the custom entries, so that the list has the same entries with the same multiplicities
  as \<open>all_plugins\<close>; and some line of the input is a duplicate-free list of the numbers 1
  to \<open>n\<close> that gives the order of the custom entries in the written list.  When it does
  not write, the file system is left as it was.  A non-blank line whose numbers are not
  such a permutation (wrong count, a number out of range, a number twice) is rejected:
  the loop goes on with the next line as if the line had not been entered.
\<close>

theorem process_load_order_preserves_plugins:
  assumes "read_plugins_file w = Inr all_plugins"
  shows "(load_order_request lim all_plugins console = Some final \<longrightarrow>
            process_load_order lim w console = snd (write_plugins_file w final)
          \<and> take (length (default_entries all_plugins)) final = default_entries all_plugins
          \<and> mset (drop (length (default_entries all_plugins)) final)
              = mset (custom_entries all_plugins)
          \<and> mset final = mset all_plugins
          \<and> list_ex (accepted_for (default_entries all_plugins) (custom_entries all_plugins) final)
              console)
       \<and> (load_order_request lim all_plugins console0 = None \<longrightarrow>
            process_load_order lim w console0 = w)
       \<and> (strip line \<noteq> []
            \<and> \<not> permutation_of_1_to (length custom_section) (entered_numbers line) \<longrightarrow>
            reorder_loop lim default_section custom_section (line # rest)
              = reorder_loop lim default_section custom_section rest)"
proof -
  let ?ds = "default_entries all_plugins"
  let ?cs = "custom_entries all_plugins"
  have c1: "process_load_order lim w console = snd (write_plugins_file w final)
          \<and> take (length ?ds) final = ?ds
          \<and> mset (drop (length ?ds) final) = mset ?cs
          \<and> mset final = mset all_plugins
          \<and> list_ex (accepted_for ?ds ?cs final) console"
    if req: "load_order_request lim all_plugins console = Some final"
  proof -
    from req have loop: "reorder_loop lim ?ds ?cs console = Some final"
      by (simp add: load_order_request_def foldl_section_step split: if_splits)
    then have acc: "list_ex (accepted_for ?ds ?cs final) console"
      by (rule reorder_loop_accepts)
    from accepted_shape [OF acc]
    have shape: "take (length ?ds) final = ?ds" "mset (drop (length ?ds) final) = mset ?cs"
      by simp_all
    have "mset final = mset (take (length ?ds) final) + mset (drop (length ?ds) final)"
      by (simp only: mset_append [symmetric] append_take_drop_id)
    also have "\<dots> = mset all_plugins"
      by (simp only: shape sections_mset)
    finally have all: "mset final = mset all_plugins" .
    have "process_load_order lim w console = snd (write_plugins_file w final)"
      using assms req by (simp add: process_load_order_def)
    with shape all acc show ?thesis by blast
  qed
  have c2: "process_load_order lim w console0 = w"
    if "load_order_request lim all_plugins console0 = None"
    using assms that by (simp add: process_load_order_def)
  have c3: "reorder_loop lim default_section custom_section (line # rest)
              = reorder_loop lim default_section custom_section rest"
    if "strip line \<noteq> []
         \<and> \<not> permutation_of_1_to (length custom_section) (entered_numbers line)"
    using that by (simp add: reorder_loop_step)
  from c1 c2 c3 show ?thesis by blast
qed

theorem process_load_order_preserves_plugins_witness:
  "read_plugins_file
     \<lparr>os_platform = Posix,
      plugins_txt = Some (''Oblivion.esm'' @ [CHR 0x0A] @ ''B.esp'' @ [CHR 0x0A] @ ''A.esp''
                            @ [CHR 0x0A]),
      read_fault = None, directory_ensured = True, open_fault = None, write_fault = None\<rparr>
     = Inr [''Oblivion.esm'', ''B.esp'', ''A.esp'']
   \<and> load_order_request 4300 [''Oblivion.esm'', ''B.esp'', ''A.esp''] [''3 x'', ''2 1'', ''y'']
     = Some [''Oblivion.esm'', ''A.esp'', ''B.esp'']
   \<and> process_load_order 4300
     \<lparr>os_platform = Posix,
      plugins_txt = Some (''Oblivion.esm'' @ [CHR 0x0A] @ ''B.esp'' @ [CHR 0x0A] @ ''A.esp''
                            @ [CHR 0x0A]),
      read_fault = None, directory_ensured = True, open_fault = None, write_fault = None\<rparr>
     [''3 x'', ''2 1'', ''y'']
     = \<lparr>os_platform = Posix,
        plugins_txt = Some (''Oblivion.esm'' @ [CHR 0x0A] @ ''A.esp'' @ [CHR 0x0A] @ ''B.esp''
                              @ [CHR 0x0A]),
        read_fault = None, directory_ensured = True, open_fault = None, write_fault = None\<rparr>
   \<and> mset [''Oblivion.esm'', ''A.esp'', ''B.esp''] = mset [''Oblivion.esm'', ''B.esp'', ''A.esp'']
   \<and> load_order_request 4300 [''Oblivion.esm'', ''B.esp'', ''A.esp''] [''2 2'', ''1 2 3'']
     = None
   \<and> process_load_order 4300
     \<lparr>os_platform = Posix,
      plugins_txt = Some (''Oblivion.esm'' @ [CHR 0x0A] @ ''B.esp'' @ [CHR 0x0A] @ ''A.esp''
                            @ [CHR 0x0A]),
      read_fault = None, directory_ensured = True, open_fault = None, write_fault = None\<rparr>
     [''2 2'', ''1 2 3'']
     = \<lparr>os_platform = Posix,
        plugins_txt = Some (''Oblivion.esm'' @ [CHR 0x0A] @ ''B.esp'' @ [CHR 0x0A] @ ''A.esp''
                              @ [CHR 0x0A]),
        read_fault = None, directory_ensured = True, open_fault = None, write_fault = None\<rparr>
   \<and> strip ''3 x'' \<noteq> []
   \<and> \<not> permutation_of_1_to (length [''B.esp'', ''A.esp'']) (entered_numbers ''3 x'')
   \<and> reorder_loop 4300 [''Oblivion.esm''] [''B.esp'', ''A.esp''] (''3 x'' # [''2 1'', ''y''])
     = reorder_loop 4300 [''Oblivion.esm''] [''B.esp'', ''A.esp''] [''2 1'', ''y'']"
proof -
  let ?w = "\<lparr>os_platform = Posix,
      plugins_txt = Some (''Oblivion.esm'' @ [CHR 0x0A] @ ''B.esp'' @ [CHR 0x0A] @ ''A.esp''
                            @ [CHR 0x0A]),
      read_fault = None, directory_ensured = True, open_fault = None, write_fault = None\<rparr>"
  let ?all = "[''Oblivion.esm'', ''B.esp'', ''A.esp'']"
  let ?final = "[''Oblivion.esm'', ''A.esp'', ''B.esp'']"
  have h: "read_plugins_file ?w = Inr ?all"
    by code_simp
  have q: "load_order_request 4300 ?all [''3 x'', ''2 1'', ''y''] = Some ?final"
    by code_simp
  have q0: "load_order_request 4300 ?all [''2 2'', ''1 2 3''] = None"
    by code_simp
  have s: "strip ''3 x'' \<noteq> []
      \<and> \<not> permutation_of_1_to (length [''B.esp'', ''A.esp'']) (entered_numbers ''3 x'')"
    by code_simp
  have wr: "snd (write_plugins_file ?w ?final)
      = \<lparr>os_platform = Posix,
        plugins_txt = Some (''Oblivion.esm'' @ [CHR 0x0A] @ ''A.esp'' @ [CHR 0x0A] @ ''B.esp''
                              @ [CHR 0x0A]),
        read_fault = None, directory_ensured = True, open_fault = None, write_fault = None\<rparr>"
    by (simp add: write_plugins_file_def write_raises_def translate_newlines_def linesep_def)
  note t = process_load_order_preserves_plugins [OF h,
      where lim = 4300 and console = "[''3 x'', ''2 1'', ''y'']" and final = ?final
        and console0 = "[''2 2'', ''1 2 3'']" and line = "''3 x''"
        and custom_section = "[''B.esp'', ''A.esp'']" and default_section = "[''Oblivion.esm'']"
        and rest = "[''2 1'', ''y'']"]
  from t q have a: "process_load_order 4300 ?w [''3 x'', ''2 1'', ''y'']
      = snd (write_plugins_file ?w ?final)" by blast
  from t q have m: "mset ?final = mset ?all" by blast
  from t q0 have b: "process_load_order 4300 ?w [''2 2'', ''1 2 3''] = ?w" by blast
  from t s have c: "reorder_loop 4300 [''Oblivion.esm''] [''B.esp'', ''A.esp'']
        (''3 x'' # [''2 1'', ''y''])
      = reorder_loop 4300 [''Oblivion.esm''] [''B.esp'', ''A.esp''] [''2 1'', ''y'']" by blast
  from a have a': "process_load_order 4300 ?w [''3 x'', ''2 1'', ''y'']
      = \<lparr>os_platform = Posix,
        plugins_txt = Some (''Oblivion.esm'' @ [CHR 0x0A] @ ''A.esp'' @ [CHR 0x0A] @ ''B.esp''
                              @ [CHR 0x0A]),
        read_fault = None, directory_ensured = True, open_fault = None, write_fault = None\<rparr>"
    by (simp only: wr)
  from s have s1: "strip ''3 x'' \<noteq> []"
    and s2: "\<not> permutation_of_1_to (length [''B.esp'', ''A.esp'']) (entered_numbers ''3 x'')"
    by blast+
  show ?thesis
    by (rule conjI [OF h conjI [OF q conjI [OF a' conjI [OF m conjI [OF q0 conjI [OF b
          conjI [OF s1 conjI [OF s2 c]]]]]]]])
qed

end
